theory Spec2Isabelle
  imports Complex_Main
begin

section \<open>The third-person controller of boarscape\<close>

text \<open>
  This theory embeds \<^verbatim>\<open>src/game/thirdPersonController.js\<close>: the helpers \<^verbatim>\<open>damp\<close> and
  \<^verbatim>\<open>clamp\<close>, the class \<^verbatim>\<open>ThirdPersonController\<close> with its constructor, its input handlers
  and its per-frame \<^verbatim>\<open>update\<close>.

  JavaScript numbers are modelled as mathematical reals: rounding, \<^verbatim>\<open>NaN\<close> and the
  infinities of IEEE doubles are outside the model, so every statement below is about the
  exact arithmetic the code denotes. \<^verbatim>\<open>null\<close> and \<^verbatim>\<open>undefined\<close> are \<open>None\<close>.
\<close>

subsection \<open>Vectors, quaternions and the scene objects\<close>

record vec3 =
  vx :: real
  vy :: real
  vz :: real

record quat =
  qx :: real
  qy :: real
  qz :: real
  qw :: real

text \<open>A three.js \<^verbatim>\<open>Object3D\<close> as far as the controller touches it: the camera and the target.\<close>

record object3d =
  position :: vec3
  quaternion :: quat

text \<open>
  An entry of \<^verbatim>\<open>environment.treeColliders\<close>: \<^verbatim>\<open>{ position, radius }\<close>. Its \<^verbatim>\<open>position\<close> is
  the field \<open>centre\<close> here, the name \<open>position\<close> being taken by \<open>object3d\<close>.
\<close>

record collider =
  centre :: vec3
  radius :: real

text \<open>
  The environment object. Every field is read through \<^verbatim>\<open>?.\<close> and \<^verbatim>\<open>??\<close>, so each of them, and
  the object itself, may be absent.
\<close>

record environment =
  groundY :: "real option"
  boundsHalfSize :: "real option"
  treeColliders :: "collider list option"

text \<open>
  The three.js methods whose bodies are not part of this repository and that no property
  below depends on are taken as a parameter: \<^verbatim>\<open>Object3D.lookAt\<close>,
  \<^verbatim>\<open>Object3D.getWorldDirection\<close> and \<^verbatim>\<open>Quaternion.slerp\<close>.
\<close>

record three =
  lookAt :: "object3d \<Rightarrow> vec3 \<Rightarrow> object3d"
  getWorldDirection :: "object3d \<Rightarrow> vec3"
  slerp :: "quat \<Rightarrow> quat \<Rightarrow> real \<Rightarrow> quat"

text \<open>The small vector operations of three.js that the controller uses, written out.\<close>

definition vec :: "real \<Rightarrow> real \<Rightarrow> real \<Rightarrow> vec3" where
  "vec a b c = \<lparr>vx = a, vy = b, vz = c\<rparr>"

definition add :: "vec3 \<Rightarrow> vec3 \<Rightarrow> vec3" where
  "add a b = vec (vx a + vx b) (vy a + vy b) (vz a + vz b)"

definition multiplyScalar :: "vec3 \<Rightarrow> real \<Rightarrow> vec3" where
  "multiplyScalar a k = vec (vx a * k) (vy a * k) (vz a * k)"

definition addScaledVector :: "vec3 \<Rightarrow> vec3 \<Rightarrow> real \<Rightarrow> vec3" where
  "addScaledVector a b k = vec (vx a + vx b * k) (vy a + vy b * k) (vz a + vz b * k)"

definition lengthSq :: "vec3 \<Rightarrow> real" where
  "lengthSq a = vx a * vx a + vy a * vy a + vz a * vz a"

definition vlength :: "vec3 \<Rightarrow> real" where
  "vlength a = sqrt (lengthSq a)"

text \<open>\<^verbatim>\<open>normalize() { return this.divideScalar(this.length() || 1) }\<close>\<close>

definition normalize :: "vec3 \<Rightarrow> vec3" where
  "normalize a = multiplyScalar a (1 / (if vlength a = 0 then 1 else vlength a))"

definition crossVectors :: "vec3 \<Rightarrow> vec3 \<Rightarrow> vec3" where
  "crossVectors a b =
     vec (vy a * vz b - vz a * vy b) (vz a * vx b - vx a * vz b) (vx a * vy b - vy a * vx b)"

text \<open>\<^verbatim>\<open>Vector3.lerp(v, alpha)\<close>: each component moves by \<^verbatim>\<open>(v.c - this.c) * alpha\<close>.\<close>

definition vlerp :: "vec3 \<Rightarrow> vec3 \<Rightarrow> real \<Rightarrow> vec3" where
  "vlerp a b t =
     vec (vx a + (vx b - vx a) * t) (vy a + (vy b - vy a) * t) (vz a + (vz b - vz a) * t)"

definition setFromAxisAngle :: "vec3 \<Rightarrow> real \<Rightarrow> quat" where
  "setFromAxisAngle axis angle =
     (let halfAngle = angle / 2; s = sin halfAngle
      in \<lparr>qx = vx axis * s, qy = vy axis * s, qz = vz axis * s, qw = cos halfAngle\<rparr>)"

text \<open>\<^verbatim>\<open>Math.atan2(y, x)\<close> on reals (no signed zeros).\<close>

definition atan2 :: "real \<Rightarrow> real \<Rightarrow> real" where
  "atan2 b a =
     (if 0 < a then arctan (b / a)
      else if a < 0 then (if 0 \<le> b then arctan (b / a) + pi else arctan (b / a) - pi)
      else if 0 < b then pi / 2
      else if b < 0 then - (pi / 2)
      else 0)"

subsection \<open>The module-level helpers\<close>

text \<open>\<^verbatim>\<open>MathUtils.lerp(x, y, t) = (1 - t) * x + t * y\<close>\<close>

definition lerp :: "real \<Rightarrow> real \<Rightarrow> real \<Rightarrow> real" where
  "lerp a b t = (1 - t) * a + t * b"

definition damp :: "real \<Rightarrow> real \<Rightarrow> real \<Rightarrow> real \<Rightarrow> real" where
  "damp current tgt lambda dt = lerp current tgt (1 - exp (- lambda * dt))"

definition clamp :: "real \<Rightarrow> real \<Rightarrow> real \<Rightarrow> real" where
  "clamp v mn mx = max mn (min mx v)"

subsection \<open>The controller\<close>

text \<open>
  The fields of a \<^verbatim>\<open>ThirdPersonController\<close>. \<open>onJump\<close> records whether a callback was
  supplied. The scratch vectors (\<^verbatim>\<open>_camForward\<close>, \<^verbatim>\<open>_moveDir\<close>, ...) are written before they
  are read in every \<^verbatim>\<open>update\<close> and are local values here; \<^verbatim>\<open>_up\<close> is the constant \<open>up\<close>.
  The DOM element is touched only to attach listeners and is left out. The environment is
  the object \<^verbatim>\<open>createEnvironment\<close> returns; nothing in the repository assigns its fields
  \<^verbatim>\<open>groundY\<close>, \<^verbatim>\<open>boundsHalfSize\<close> and \<^verbatim>\<open>treeColliders\<close> afterwards, so it is a value of the
  controller.
\<close>

record controller =
  camera :: object3d
  target :: "object3d option"
  environment :: "environment option"
  onJump :: bool
  targetHeight :: real
  playerRadius :: real
  walkSpeed :: real
  runSpeed :: real
  jumpSpeed :: real
  gravity :: real
  rotationSpeed :: real
  distance :: real
  minDistance :: real
  maxDistance :: real
  yaw :: real
  phi :: real
  minPhi :: real
  maxPhi :: real
  cameraSmooth :: real
  velocity :: vec3
  onGround :: bool
  keysDown :: "string set"
  jumpRequested :: bool
  dragging :: bool
  pointerId :: "int option"
  lastPointerX :: real
  lastPointerY :: real

text \<open>
  The object literal a caller passes to the constructor. \<^verbatim>\<open>player.js\<close> passes
  \<^verbatim>\<open>onMovementChange\<close> as well; the constructor's destructuring pattern has no such name.
\<close>

record options =
  opt_camera :: object3d
  opt_target :: "object3d option"
  opt_environment :: "environment option"
  opt_targetHeight :: "real option"
  opt_playerRadius :: "real option"
  opt_onJump :: bool
  opt_onMovementChange :: bool

definition up :: vec3 where
  "up = vec 0 1 0"

definition constructor :: "options \<Rightarrow> controller" where
  "constructor opts =
     \<lparr>camera = opt_camera opts,
      target = opt_target opts,
      environment = opt_environment opts,
      onJump = opt_onJump opts,
      targetHeight = (case opt_targetHeight opts of None \<Rightarrow> 1.25 | Some h \<Rightarrow> h),
      playerRadius = (case opt_playerRadius opts of None \<Rightarrow> 0.55 | Some r \<Rightarrow> r),
      walkSpeed = 4.6,
      runSpeed = 7.4,
      jumpSpeed = 7.2,
      gravity = 18.5,
      rotationSpeed = 14,
      distance = 8.5,
      minDistance = 3.6,
      maxDistance = 18.0,
      yaw = 0,
      phi = 1.12,
      minPhi = 0.55,
      maxPhi = 1.45,
      cameraSmooth = 14,
      velocity = vec 0 0 0,
      onGround = True,
      keysDown = {},
      jumpRequested = False,
      dragging = False,
      pointerId = None,
      lastPointerX = 0,
      lastPointerY = 0\<rparr>"

subsection \<open>Input handlers\<close>

definition onKeyDown :: "string \<Rightarrow> bool \<Rightarrow> controller \<Rightarrow> controller" where
  "onKeyDown code repeat s =
     (let s1 = s\<lparr>keysDown := insert code (keysDown s)\<rparr>
      in if code = ''Space'' \<and> \<not> repeat then s1\<lparr>jumpRequested := True\<rparr> else s1)"

definition onKeyUp :: "string \<Rightarrow> controller \<Rightarrow> controller" where
  "onKeyUp code s = s\<lparr>keysDown := keysDown s - {code}\<rparr>"

definition onPointerDown :: "int \<Rightarrow> int \<Rightarrow> real \<Rightarrow> real \<Rightarrow> controller \<Rightarrow> controller" where
  "onPointerDown button pid clientX clientY s =
     (if button \<noteq> 0 then s
      else s\<lparr>dragging := True, pointerId := Some pid,
             lastPointerX := clientX, lastPointerY := clientY\<rparr>)"

definition rotateSpeed :: real where
  "rotateSpeed = 0.0042"

definition onPointerMove :: "int \<Rightarrow> real \<Rightarrow> real \<Rightarrow> controller \<Rightarrow> controller" where
  "onPointerMove pid clientX clientY s =
     (if \<not> dragging s then s
      else if pointerId s \<noteq> None \<and> pointerId s \<noteq> Some pid then s
      else
        (let dx = clientX - lastPointerX s;
             dy = clientY - lastPointerY s
         in s\<lparr>lastPointerX := clientX, lastPointerY := clientY,
                yaw := yaw s - dx * rotateSpeed,
                phi := clamp (phi s + dy * rotateSpeed) (minPhi s) (maxPhi s)\<rparr>))"

definition onPointerUp :: "int \<Rightarrow> controller \<Rightarrow> controller" where
  "onPointerUp pid s =
     (if pointerId s \<noteq> None \<and> pointerId s \<noteq> Some pid then s
      else s\<lparr>dragging := False, pointerId := None\<rparr>)"

definition onWheel :: "real \<Rightarrow> controller \<Rightarrow> controller" where
  "onWheel deltaY s =
     (let delta = sgn deltaY
      in s\<lparr>distance := clamp (distance s + delta * 0.85) (minDistance s) (maxDistance s)\<rparr>)"

subsection \<open>The per-frame update\<close>

text \<open>
  What a frame makes visible to the collaborators: the callbacks it invokes, in order.
  \<open>OnMovementChange\<close> is the event the callers expect from the option of that name.
\<close>

datatype callback = OnJump | OnMovementChange bool

text \<open>Lines 150-169: the camera follows the point above the target and aims at it.\<close>

definition cameraTarget :: "controller \<Rightarrow> object3d \<Rightarrow> vec3" where
  "cameraTarget s tg = (position tg)\<lparr>vy := vy (position tg) + targetHeight s\<rparr>"

definition desiredCameraPos :: "controller \<Rightarrow> vec3 \<Rightarrow> vec3" where
  "desiredCameraPos s targetPos =
     (let sinPhi = sin (phi s);
          cosPhi = cos (phi s);
          sinYaw = sin (yaw s);
          cosYaw = cos (yaw s);
          cameraOffset = vec (sinPhi * sinYaw * distance s) (cosPhi * distance s)
                             (sinPhi * cosYaw * distance s)
      in add targetPos cameraOffset)"

definition moveCamera :: "three \<Rightarrow> real \<Rightarrow> controller \<Rightarrow> vec3 \<Rightarrow> object3d" where
  "moveCamera L dt s targetPos =
     (let t = 1 - exp (- cameraSmooth s * dt);
          cam = (camera s)\<lparr>position := vlerp (position (camera s)) (desiredCameraPos s targetPos) t\<rparr>
      in lookAt L cam targetPos)"

text \<open>Lines 172-179: the camera's forward and right directions in the horizontal plane.\<close>

definition camForward :: "three \<Rightarrow> object3d \<Rightarrow> vec3" where
  "camForward L cam =
     (let f = (getWorldDirection L cam)\<lparr>vy := 0\<rparr>
      in if lengthSq f < 0.000001 then vec 0 0 (- 1) else normalize f)"

definition camRight :: "vec3 \<Rightarrow> vec3" where
  "camRight f = normalize (crossVectors f up)"

text \<open>Lines 181-193: the move intent and the desired velocity.\<close>

definition xInput :: "string set \<Rightarrow> real" where
  "xInput ks = (if ''KeyD'' \<in> ks then 1 else 0) + (if ''KeyA'' \<in> ks then - 1 else 0)"

definition zInput :: "string set \<Rightarrow> real" where
  "zInput ks = (if ''KeyW'' \<in> ks then 1 else 0) + (if ''KeyS'' \<in> ks then - 1 else 0)"

definition moveDirRaw :: "vec3 \<Rightarrow> vec3 \<Rightarrow> string set \<Rightarrow> vec3" where
  "moveDirRaw fwd right ks =
     (let m0 = vec 0 0 0;
          m1 = (if xInput ks \<noteq> 0 then addScaledVector m0 right (xInput ks) else m0)
      in if zInput ks \<noteq> 0 then addScaledVector m1 fwd (zInput ks) else m1)"

definition hasMove :: "vec3 \<Rightarrow> bool" where
  "hasMove m = (lengthSq m > 0.000001)"

definition moveDir :: "vec3 \<Rightarrow> vec3 \<Rightarrow> string set \<Rightarrow> vec3" where
  "moveDir fwd right ks =
     (let m = moveDirRaw fwd right ks in if hasMove m then normalize m else m)"

definition isRunning :: "string set \<Rightarrow> bool" where
  "isRunning ks = (''ShiftLeft'' \<in> ks \<or> ''ShiftRight'' \<in> ks)"

definition maxSpeed :: "controller \<Rightarrow> real" where
  "maxSpeed s = (if isRunning (keysDown s) then runSpeed s else walkSpeed s)"

definition desiredVel :: "controller \<Rightarrow> vec3 \<Rightarrow> vec3 \<Rightarrow> vec3" where
  "desiredVel s fwd right =
     (let m = moveDirRaw fwd right (keysDown s)
      in multiplyScalar (moveDir fwd right (keysDown s)) (if hasMove m then maxSpeed s else 0))"

text \<open>Lines 195-197: the horizontal velocity is damped towards the desired one.\<close>

definition accel :: "bool \<Rightarrow> real" where
  "accel hm = (if hm then 18 else 14)"

definition dampVelocity :: "vec3 \<Rightarrow> vec3 \<Rightarrow> bool \<Rightarrow> real \<Rightarrow> vec3" where
  "dampVelocity v dv hm dt =
     v\<lparr>vx := damp (vx v) (vx dv) (accel hm) dt, vz := damp (vz v) (vz dv) (accel hm) dt\<rparr>"

text \<open>
  Lines 200-204: the jump check, on the velocity and the grounded flag. The flag
  \<^verbatim>\<open>_jumpRequested\<close> is cleared right after it (line 205), in \<open>update\<close> below.
\<close>

definition jumpCheck :: "controller \<Rightarrow> vec3 \<Rightarrow> callback list \<times> vec3 \<times> bool" where
  "jumpCheck s v =
     (if onGround s \<and> jumpRequested s
      then ((if onJump s then [OnJump] else []), v\<lparr>vy := jumpSpeed s\<rparr>, False)
      else ([], v, onGround s))"

text \<open>Lines 207-214: gravity while airborne, then the position is integrated.\<close>

definition applyGravity :: "controller \<Rightarrow> real \<Rightarrow> vec3 \<Rightarrow> bool \<Rightarrow> vec3" where
  "applyGravity s dt v og = (if \<not> og then v\<lparr>vy := vy v - gravity s * dt\<rparr> else v)"

definition integrate :: "vec3 \<Rightarrow> vec3 \<Rightarrow> real \<Rightarrow> vec3" where
  "integrate p v dt = vec (vx p + vx v * dt) (vy p + vy v * dt) (vz p + vz v * dt)"

text \<open>Lines 217-222: the ground collision; \<^verbatim>\<open>environment?.groundY ?? 0\<close>.\<close>

definition groundLevel :: "environment option \<Rightarrow> real" where
  "groundLevel env =
     (case env of None \<Rightarrow> 0 | Some e \<Rightarrow> (case groundY e of None \<Rightarrow> 0 | Some g \<Rightarrow> g))"

definition groundCollision :: "real \<Rightarrow> vec3 \<times> vec3 \<times> bool \<Rightarrow> vec3 \<times> vec3 \<times> bool" where
  "groundCollision g pvo =
     (case pvo of (p, v, og) \<Rightarrow>
        if vy p \<le> g then (p\<lparr>vy := g\<rparr>, v\<lparr>vy := 0\<rparr>, True) else (p, v, og))"

text \<open>Lines 225-228: the world bounds; \<^verbatim>\<open>environment?.boundsHalfSize ?? 260\<close>.\<close>

definition half :: "environment option \<Rightarrow> real" where
  "half env =
     (case env of None \<Rightarrow> 260 | Some e \<Rightarrow> (case boundsHalfSize e of None \<Rightarrow> 260 | Some h \<Rightarrow> h))"

definition margin :: real where
  "margin = 2.0"

definition worldBounds :: "real \<Rightarrow> vec3 \<Rightarrow> vec3" where
  "worldBounds h p =
     p\<lparr>vx := clamp (vx p) (- h + margin) (h - margin),
       vz := clamp (vz p) (- h + margin) (h - margin)\<rparr>"

text \<open>
  Lines 231-255: the tree collisions, one collider after the other, each on the position
  and velocity the previous one left. \<^verbatim>\<open>Math.sqrt(d2) || 0.0001\<close> takes the fallback when
  the square root is zero.
\<close>

definition colliders :: "environment option \<Rightarrow> collider list" where
  "colliders env =
     (case env of None \<Rightarrow> [] | Some e \<Rightarrow> (case treeColliders e of None \<Rightarrow> [] | Some cs \<Rightarrow> cs))"

definition collide :: "real \<Rightarrow> vec3 \<times> vec3 \<Rightarrow> collider \<Rightarrow> vec3 \<times> vec3" where
  "collide pr pv c =
     (case pv of (p, v) \<Rightarrow>
        (let dx = vx p - vx (centre c);
             dz = vz p - vz (centre c);
             r = pr + radius c;
             d2 = dx * dx + dz * dz
         in if d2 < r * r then
              (let d = (if sqrt d2 = 0 then 0.0001 else sqrt d2);
                   nx = dx / d;
                   nz = dz / d;
                   push = r - d;
                   p' = p\<lparr>vx := vx p + nx * push, vz := vz p + nz * push\<rparr>;
                   vn = vx v * nx + vz v * nz
               in if vn < 0 then (p', v\<lparr>vx := vx v - vn * nx, vz := vz v - vn * nz\<rparr>)
                  else (p', v))
            else (p, v)))"

definition treeCollisions :: "real \<Rightarrow> collider list \<Rightarrow> vec3 \<times> vec3 \<Rightarrow> vec3 \<times> vec3" where
  "treeCollisions pr cs pv = foldl (collide pr) pv cs"

text \<open>Lines 258-263: the target turns towards the movement direction.\<close>

definition faceMovement :: "three \<Rightarrow> controller \<Rightarrow> real \<Rightarrow> vec3 \<Rightarrow> bool \<Rightarrow> quat \<Rightarrow> quat" where
  "faceMovement L s dt md hm q =
     (if hm then
        (let facingYaw = atan2 (vx md) (vz md);
             desiredFacing = setFromAxisAngle up facingYaw;
             rt = 1 - exp (- rotationSpeed s * dt)
         in slerp L q desiredFacing rt)
      else q)"

text \<open>
  \<^verbatim>\<open>update(dt)\<close>: the callbacks invoked during the frame and the state it leaves. Without
  a target it returns at once.
\<close>

definition update :: "three \<Rightarrow> real \<Rightarrow> controller \<Rightarrow> callback list \<times> controller" where
  "update L dt s =
     (case target s of
        None \<Rightarrow> ([], s)
      | Some tg \<Rightarrow>
          (let targetPos = cameraTarget s tg;
               cam = moveCamera L dt s targetPos;
               fwd = camForward L cam;
               right = camRight fwd;
               hm = hasMove (moveDirRaw fwd right (keysDown s));
               md = moveDir fwd right (keysDown s);
               v1 = dampVelocity (velocity s) (desiredVel s fwd right) hm dt;
               (calls, v2, og2) = jumpCheck s v1;
               v3 = applyGravity s dt v2 og2;
               p1 = integrate (position tg) v3 dt;
               (p2, v4, og4) = groundCollision (groundLevel (environment s)) (p1, v3, og2);
               p3 = worldBounds (half (environment s)) p2;
               (p4, v5) = treeCollisions (playerRadius s) (colliders (environment s)) (p3, v4);
               q = faceMovement L s dt md hm (quaternion tg)
           in (calls,
               s\<lparr>camera := cam, velocity := v5, onGround := og4, jumpRequested := False,
                 target := Some (tg\<lparr>position := p4, quaternion := q\<rparr>)\<rparr>)))"

subsection \<open>Runs of the controller\<close>

text \<open>
  What can happen to a controller between construction and disposal: the listeners fire
  and the render loop calls \<^verbatim>\<open>update\<close>.
\<close>

datatype input =
    KeyDown string bool
  | KeyUp string
  | PointerDown int int real real
  | PointerMove int real real
  | PointerUp int
  | Wheel real
  | Update real

fun step :: "three \<Rightarrow> input \<Rightarrow> controller \<Rightarrow> callback list \<times> controller" where
  "step L (KeyDown code repeat) s = ([], onKeyDown code repeat s)"
| "step L (KeyUp code) s = ([], onKeyUp code s)"
| "step L (PointerDown button pid cx cy) s = ([], onPointerDown button pid cx cy s)"
| "step L (PointerMove pid cx cy) s = ([], onPointerMove pid cx cy s)"
| "step L (PointerUp pid) s = ([], onPointerUp pid s)"
| "step L (Wheel deltaY) s = ([], onWheel deltaY s)"
| "step L (Update dt) s = update L dt s"

fun run :: "three \<Rightarrow> input list \<Rightarrow> controller \<Rightarrow> controller" where
  "run L [] s = s"
| "run L (i # ins) s = run L ins (snd (step L i s))"

fun calls :: "three \<Rightarrow> input list \<Rightarrow> controller \<Rightarrow> callback list" where
  "calls L [] s = []"
| "calls L (i # ins) s = fst (step L i s) @ calls L ins (snd (step L i s))"

subsection \<open>Notions used in the statements\<close>

text \<open>Applying \<open>damp\<close> again and again with the same target, rate and time step.\<close>

primrec dampIter :: "real \<Rightarrow> real \<Rightarrow> real \<Rightarrow> real \<Rightarrow> nat \<Rightarrow> real" where
  "dampIter current tgt lambda dt 0 = current"
| "dampIter current tgt lambda dt (Suc n) = damp (dampIter current tgt lambda dt n) tgt lambda dt"

text \<open>
  The value the local \<^verbatim>\<open>hasMove\<close> takes in the frame \<^verbatim>\<open>update(dt)\<close> runs from \<open>s\<close>: whether
  the character is moving by intent in that frame.
\<close>

definition frameHasMove :: "three \<Rightarrow> real \<Rightarrow> controller \<Rightarrow> bool" where
  "frameHasMove L dt s =
     (case target s of None \<Rightarrow> False
      | Some tg \<Rightarrow>
          (let fwd = camForward L (moveCamera L dt s (cameraTarget s tg))
           in hasMove (moveDirRaw fwd (camRight fwd) (keysDown s))))"

subsection \<open>A sample scene\<close>

text \<open>
  The camera where \<^verbatim>\<open>main.js\<close> puts it, a target at the origin, the environment
  \<^verbatim>\<open>createEnvironment\<close> returns for a given collider list, and a stand-in for the three.js
  methods: a camera that always looks along \<open>-z\<close>.
\<close>

definition exampleCamera :: object3d where
  "exampleCamera = \<lparr>position = vec 0 6 10, quaternion = \<lparr>qx = 0, qy = 0, qz = 0, qw = 1\<rparr>\<rparr>"

definition exampleTarget :: object3d where
  "exampleTarget = \<lparr>position = vec 0 0 0, quaternion = \<lparr>qx = 0, qy = 0, qz = 0, qw = 1\<rparr>\<rparr>"

definition exampleEnvironment :: "collider list \<Rightarrow> environment" where
  "exampleEnvironment cs = \<lparr>groundY = Some 0, boundsHalfSize = Some 260, treeColliders = Some cs\<rparr>"

definition exampleOptions :: "object3d option \<Rightarrow> environment option \<Rightarrow> options" where
  "exampleOptions tg env =
     \<lparr>opt_camera = exampleCamera, opt_target = tg, opt_environment = env,
      opt_targetHeight = None, opt_playerRadius = None,
      opt_onJump = True, opt_onMovementChange = True\<rparr>"

definition exampleThree :: three where
  "exampleThree =
     \<lparr>lookAt = (\<lambda>obj p. obj), getWorldDirection = (\<lambda>obj. vec 0 0 (- 1)),
      slerp = (\<lambda>qa qb t. qb)\<rparr>"

subsection \<open>The caller\<close>

text \<open>
  \<^verbatim>\<open>loadPlayer\<close> in \<^verbatim>\<open>player.js\<close>, as far as the controller is concerned: the root object is
  put at the spawn point \<^verbatim>\<open>(0, environment.groundY ?? 0, 0)\<close> and then handed to the
  constructor together with the environment and both callbacks. The target height and the
  player radius come from the bounding box of the loaded model and are parameters here.
  Not every caller does so: the oldest \<^verbatim>\<open>main.js\<close> in the repository hands the model itself
  to the constructor, at the height \<^verbatim>\<open>-minY\<close> of its bounding box, whatever the ground
  height is.
\<close>

definition loadPlayer :: "object3d \<Rightarrow> object3d \<Rightarrow> environment \<Rightarrow> real \<Rightarrow> real \<Rightarrow> controller" where
  "loadPlayer cam playerRoot env th pr =
     (let spawned = playerRoot\<lparr>position := vec 0 (case groundY env of None \<Rightarrow> 0 | Some g \<Rightarrow> g) 0\<rparr>
      in constructor
           \<lparr>opt_camera = cam, opt_target = Some spawned, opt_environment = Some env,
            opt_targetHeight = Some th, opt_playerRadius = Some pr,
            opt_onJump = True, opt_onMovementChange = True\<rparr>)"

subsection \<open>Invariants and input classes\<close>

text \<open>The parameters the constructor fixes; no handler and no frame assigns them.\<close>

definition settings :: "controller \<Rightarrow> bool" where
  "settings s =
     (walkSpeed s = 4.6 \<and> runSpeed s = 7.4 \<and> jumpSpeed s = 7.2 \<and> gravity s = 18.5
      \<and> minDistance s = 3.6 \<and> maxDistance s = 18.0 \<and> minPhi s = 0.55 \<and> maxPhi s = 1.45)"

text \<open>The camera's polar angle and distance are inside their ranges.\<close>

definition orbitInRange :: "controller \<Rightarrow> bool" where
  "orbitInRange s =
     (minPhi s \<le> phi s \<and> phi s \<le> maxPhi s
      \<and> minDistance s \<le> distance s \<and> distance s \<le> maxDistance s)"

text \<open>
  A drag upwards on the screen: pointer positions \<open>(clientX, clientY)\<close> whose \<open>clientY\<close>
  never increases, starting from height \<open>y\<close>. \<open>drag\<close> is the pointer-move event for one of
  them.
\<close>

fun upward :: "real \<Rightarrow> (real \<times> real) list \<Rightarrow> bool" where
  "upward y [] = True"
| "upward y (p # ps) = (snd p \<le> y \<and> upward (snd p) ps)"

definition drag :: "int \<Rightarrow> real \<times> real \<Rightarrow> input" where
  "drag pid p = PointerMove pid (fst p) (snd p)"

text \<open>The height of the target, when there is one.\<close>

definition targetY :: "controller \<Rightarrow> real option" where
  "targetY s = map_option (\<lambda>tg. vy (position tg)) (target s)"

text \<open>
  While grounded the target is at or below the ground height with no vertical velocity;
  while airborne it is strictly above the ground height.
\<close>

definition grounded :: "controller \<Rightarrow> bool" where
  "grounded s =
     (case target s of
        None \<Rightarrow> True
      | Some tg \<Rightarrow>
          if onGround s
          then vy (position tg) \<le> groundLevel (environment s) \<and> vy (velocity s) = 0
          else groundLevel (environment s) < vy (position tg))"

text \<open>
  \<open>jumpApplied s\<close>: the jump check of a frame run from \<open>s\<close> (lines 200-204) takes a grounded
  controller off the ground with the vertical velocity set to \<^verbatim>\<open>jumpSpeed\<close>. \<open>impulses\<close>
  counts the frames of a run in which it does so.
\<close>

definition jumpApplied :: "controller \<Rightarrow> bool" where
  "jumpApplied s =
     (target s \<noteq> None \<and> onGround s
      \<and> (case jumpCheck s (velocity s) of (cs, v, og) \<Rightarrow> vy v = jumpSpeed s \<and> \<not> og))"

fun impulses :: "three \<Rightarrow> input list \<Rightarrow> controller \<Rightarrow> nat" where
  "impulses L [] s = 0"
| "impulses L (Update dt # ins) s =
     (if jumpApplied s then 1 else 0) + impulses L ins (snd (step L (Update dt) s))"
| "impulses L (i # ins) s = impulses L ins (snd (step L i s))"

text \<open>A key-down of the jump key that is not an auto-repeat; a frame.\<close>

fun freshJumpPress :: "input \<Rightarrow> bool" where
  "freshJumpPress (KeyDown code repeat) = (code = ''Space'' \<and> \<not> repeat)"
| "freshJumpPress i = False"

fun isUpdate :: "input \<Rightarrow> bool" where
  "isUpdate (Update dt) = True"
| "isUpdate i = False"

text \<open>The horizontal distance between a position and the centre of a collider.\<close>

definition hdist :: "vec3 \<Rightarrow> collider \<Rightarrow> real" where
  "hdist p c =
     sqrt ((vx p - vx (centre c)) * (vx p - vx (centre c))
           + (vz p - vz (centre c)) * (vz p - vz (centre c)))"

text \<open>
  A position within \<open>b\<close> of the origin on both horizontal axes; a collider whose disc,
  widened by the player radius, lies within \<open>b\<close> of the origin on both axes.
\<close>

definition insideBounds :: "real \<Rightarrow> vec3 \<Rightarrow> bool" where
  "insideBounds b p = (\<bar>vx p\<bar> \<le> b \<and> \<bar>vz p\<bar> \<le> b)"

definition discInside :: "real \<Rightarrow> real \<Rightarrow> collider \<Rightarrow> bool" where
  "discInside b pr c =
     (\<bar>vx (centre c)\<bar> + \<bar>pr + radius c\<bar> \<le> b \<and> \<bar>vz (centre c)\<bar> + \<bar>pr + radius c\<bar> \<le> b)"

text \<open>The position of the target, when there is one.\<close>

definition targetPosition :: "controller \<Rightarrow> vec3 option" where
  "targetPosition s = map_option position (target s)"


section \<open>Properties\<close>

subsection \<open>Facts about a single frame\<close>

lemma update_calls: "fst (update L dt s) = [] \<or> fst (update L dt s) = [OnJump]"
  by (simp add: update_def jumpCheck_def Let_def split: option.splits prod.splits)

lemma update_never_onMovementChange: "OnMovementChange b \<notin> set (fst (update L dt s))"
  using update_calls [of L dt s] by auto

lemma update_keysDown: "keysDown (snd (update L dt s)) = keysDown s"
  by (simp add: update_def Let_def split: option.splits prod.splits)

lemma update_target_None: "(target (snd (update L dt s)) = None) = (target s = None)"
  by (simp add: update_def Let_def split: option.splits prod.splits)

lemma update_jumpRequested:
  "jumpRequested (snd (update L dt s)) = (target s = None \<and> jumpRequested s)"
  by (simp add: update_def Let_def split: option.splits prod.splits)

lemma update_quiet: "\<not> jumpRequested s \<Longrightarrow> fst (update L dt s) = []"
  by (simp add: update_def jumpCheck_def Let_def split: option.splits prod.splits)

subsection \<open>The sample scene\<close>

lemma example_forward: "camForward exampleThree cam = vec 0 0 (- 1)"
  by (simp add: camForward_def exampleThree_def Let_def vec_def normalize_def vlength_def
      lengthSq_def multiplyScalar_def)

lemma example_right: "camRight (vec 0 0 (- 1)) = vec 1 0 0"
  by (simp add: camRight_def crossVectors_def up_def vec_def normalize_def vlength_def
      lengthSq_def multiplyScalar_def)

lemma example_frameHasMove:
  "frameHasMove exampleThree dt s =
     (target s \<noteq> None \<and> hasMove (moveDirRaw (vec 0 0 (- 1)) (vec 1 0 0) (keysDown s)))"
  by (simp add: frameHasMove_def example_forward example_right split: option.splits)

lemma hasMove_idle: "\<not> hasMove (moveDirRaw fwd right {})"
  by (simp add: hasMove_def moveDirRaw_def xInput_def zInput_def lengthSq_def vec_def)

lemma hasMove_forward: "hasMove (moveDirRaw (vec 0 0 (- 1)) (vec 1 0 0) {''KeyW''})"
  by (simp add: hasMove_def moveDirRaw_def xInput_def zInput_def lengthSq_def vec_def
      addScaledVector_def)

subsection \<open>The movement-change callback\<close>

text \<open>
  C1. The claim: on every moving-to-idle or idle-to-moving edge the callback
  \<^verbatim>\<open>onMovementChange(isMoving)\<close> given at construction is invoked with the new state. The
  constructor does not take that option and \<^verbatim>\<open>update\<close> invokes nothing but \<^verbatim>\<open>onJump\<close>
  (\<open>update_never_onMovementChange\<close>). In the run below the callback is supplied, the
  character is idle in the first frame, moving in the second (W held) and idle again in the
  third, and no callback at all is invoked.
\<close>

theorem movement_change_never_reported:
  "\<not> frameHasMove exampleThree (1 / 60) (constructor (exampleOptions (Some exampleTarget) None))
   \<and> frameHasMove exampleThree (1 / 60)
       (run exampleThree [Update (1 / 60), KeyDown ''KeyW'' False]
          (constructor (exampleOptions (Some exampleTarget) None)))
   \<and> \<not> frameHasMove exampleThree (1 / 60)
       (run exampleThree [Update (1 / 60), KeyDown ''KeyW'' False, Update (1 / 60), KeyUp ''KeyW'']
          (constructor (exampleOptions (Some exampleTarget) None)))
   \<and> opt_onMovementChange (exampleOptions (Some exampleTarget) None)
   \<and> calls exampleThree
       [Update (1 / 60), KeyDown ''KeyW'' False, Update (1 / 60), KeyUp ''KeyW'', Update (1 / 60)]
       (constructor (exampleOptions (Some exampleTarget) None)) = []"
proof -
  let ?s0 = "constructor (exampleOptions (Some exampleTarget) None)"
  have t0: "target ?s0 \<noteq> None" and k0: "keysDown ?s0 = {}" and j0: "\<not> jumpRequested ?s0"
    by (simp_all add: constructor_def exampleOptions_def)
  have o: "opt_onMovementChange (exampleOptions (Some exampleTarget) None)"
    by (simp add: exampleOptions_def)
  show ?thesis
    using t0 k0 j0 o
    by (simp add: example_frameHasMove update_keysDown update_target_None update_jumpRequested
        update_quiet onKeyDown_def onKeyUp_def hasMove_idle hasMove_forward)
qed

subsection \<open>Damping\<close>

lemma damp_affine: "damp c t l dt = t + (c - t) * exp (- l * dt)"
  by (simp add: damp_def lerp_def algebra_simps)

lemma dampIter_closed: "dampIter c t l dt n = t + (c - t) * exp (- l * dt) ^ n"
proof (induction n)
  case 0
  show ?case by simp
next
  case (Suc n)
  have "dampIter c t l dt (Suc n) = t + (dampIter c t l dt n - t) * exp (- l * dt)"
    by (simp add: damp_affine)
  also have "\<dots> = t + ((c - t) * exp (- l * dt) ^ n) * exp (- l * dt)"
    by (simp only: Suc.IH) simp
  finally show ?case by (simp add: mult.assoc mult.commute)
qed

lemma dampIter_limit:
  assumes "0 < l" "0 < dt"
  shows "(\<lambda>n. dampIter c t l dt n) \<longlonglongrightarrow> t"
proof -
  have k: "0 \<le> exp (- l * dt)" "exp (- l * dt) < 1"
    using assms by simp_all
  have "(\<lambda>n. exp (- l * dt) ^ n) \<longlonglongrightarrow> 0"
    using k by (rule LIMSEQ_realpow_zero)
  then have "(\<lambda>n. (c - t) * exp (- l * dt) ^ n) \<longlonglongrightarrow> (c - t) * 0"
    by (rule tendsto_mult_left)
  then have "(\<lambda>n. t + (c - t) * exp (- l * dt) ^ n) \<longlonglongrightarrow> t + (c - t) * 0"
    by (rule tendsto_add [OF tendsto_const])
  then show ?thesis
    by (simp add: dampIter_closed)
qed

lemma dampIter_step:
  "dampIter c t l dt (Suc n) - dampIter c t l dt n
     = (t - c) * (exp (- l * dt) ^ n * (1 - exp (- l * dt)))"
  by (simp add: dampIter_closed algebra_simps)

lemma dampIter_gap: "t - dampIter c t l dt n = (t - c) * exp (- l * dt) ^ n"
  by (simp add: dampIter_closed algebra_simps)

text \<open>
  C7. \<open>damp current tgt lambda dt\<close> is \<open>current + (tgt - current) * (1 - exp (- lambda * dt))\<close>,
  and for a positive rate and a positive fixed time step the iterates converge to the target,
  moving towards it in every step and never passing it: from below they increase and stay at
  or below the target, from above they decrease and stay at or above it.
\<close>

theorem damp_converges:
  assumes "0 < lambda" and "0 < dt"
  shows "damp current tgt lambda dt = current + (tgt - current) * (1 - exp (- lambda * dt))
       \<and> (\<lambda>n. dampIter current tgt lambda dt n) \<longlonglongrightarrow> tgt
       \<and> (current \<le> tgt \<longrightarrow>
            (\<forall>n. dampIter current tgt lambda dt n \<le> dampIter current tgt lambda dt (Suc n)
               \<and> dampIter current tgt lambda dt n \<le> tgt))
       \<and> (tgt \<le> current \<longrightarrow>
            (\<forall>n. dampIter current tgt lambda dt (Suc n) \<le> dampIter current tgt lambda dt n
               \<and> tgt \<le> dampIter current tgt lambda dt n))"
proof (intro conjI impI allI)
  show "damp current tgt lambda dt = current + (tgt - current) * (1 - exp (- lambda * dt))"
    by (simp add: damp_def lerp_def algebra_simps)
  show "(\<lambda>n. dampIter current tgt lambda dt n) \<longlonglongrightarrow> tgt"
    using assms by (rule dampIter_limit)
  have "0 < lambda * dt"
    using assms by simp
  then have k: "0 \<le> exp (- lambda * dt) ^ n * (1 - exp (- lambda * dt))" for n
    by (intro mult_nonneg_nonneg) simp_all
  have p: "0 \<le> exp (- lambda * dt) ^ n" for n
    by simp
  { fix n assume le: "current \<le> tgt"
    have "0 \<le> (tgt - current) * (exp (- lambda * dt) ^ n * (1 - exp (- lambda * dt)))"
      using le by (intro mult_nonneg_nonneg k) simp
    then show "dampIter current tgt lambda dt n \<le> dampIter current tgt lambda dt (Suc n)"
      using dampIter_step [of current tgt lambda dt n] by linarith
    have "0 \<le> (tgt - current) * exp (- lambda * dt) ^ n"
      using le by (intro mult_nonneg_nonneg p) simp
    then show "dampIter current tgt lambda dt n \<le> tgt"
      using dampIter_gap [of tgt current lambda dt n] by linarith }
  { fix n assume ge: "tgt \<le> current"
    have "(tgt - current) * (exp (- lambda * dt) ^ n * (1 - exp (- lambda * dt))) \<le> 0"
      using ge by (intro mult_nonpos_nonneg k) simp
    then show "dampIter current tgt lambda dt (Suc n) \<le> dampIter current tgt lambda dt n"
      using dampIter_step [of current tgt lambda dt n] by linarith
    have "(tgt - current) * exp (- lambda * dt) ^ n \<le> 0"
      using ge by (intro mult_nonpos_nonneg p) simp
    then show "tgt \<le> dampIter current tgt lambda dt n"
      using dampIter_gap [of tgt current lambda dt n] by linarith }
qed

theorem damp_converges_witness:
  "(0::real) < 18 \<and> (0::real) < 1 / 60
   \<and> damp 0 4.6 18 (1 / 60) = 0 + (4.6 - 0) * (1 - exp (- 18 * (1 / 60)))
   \<and> (\<lambda>n. dampIter 0 4.6 18 (1 / 60) n) \<longlonglongrightarrow> 4.6
   \<and> (\<forall>n. dampIter 0 4.6 18 (1 / 60) n \<le> dampIter 0 4.6 18 (1 / 60) (Suc n)
          \<and> dampIter 0 4.6 18 (1 / 60) n \<le> 4.6)
   \<and> (\<lambda>n. dampIter 4.6 0 14 (1 / 60) n) \<longlonglongrightarrow> 0
   \<and> (\<forall>n. dampIter 4.6 0 14 (1 / 60) (Suc n) \<le> dampIter 4.6 0 14 (1 / 60) n
          \<and> 0 \<le> dampIter 4.6 0 14 (1 / 60) n)"
proof -
  have a: "(0::real) < 18" and b: "(0::real) < 14" and c: "(0::real) < 1 / 60"
    by simp_all
  have d: "(0::real) \<le> 4.6"
    by simp
  show ?thesis
    using damp_converges [OF a c, of 0 "4.6"] damp_converges [OF b c, of "4.6" 0] d a c
    by blast
qed

subsection \<open>A frame without a target\<close>

text \<open>
  C10. When the target reference is absent, \<^verbatim>\<open>update(dt)\<close> invokes no callback and leaves
  the whole controller as it was, for every time step and input state; in particular the
  jump-request flag keeps its value and is not cleared in such a frame.
\<close>

theorem update_without_target:
  assumes "target s = None"
  shows "update L dt s = ([], s) \<and> jumpRequested (snd (update L dt s)) = jumpRequested s"
  using assms by (simp add: update_def)

theorem update_without_target_witness:
  "target (onKeyDown ''Space'' False (constructor (exampleOptions None None))) = None
   \<and> jumpRequested (onKeyDown ''Space'' False (constructor (exampleOptions None None)))
   \<and> update exampleThree (1 / 60) (onKeyDown ''Space'' False (constructor (exampleOptions None None)))
       = ([], onKeyDown ''Space'' False (constructor (exampleOptions None None)))
   \<and> jumpRequested (snd (update exampleThree (1 / 60)
         (onKeyDown ''Space'' False (constructor (exampleOptions None None)))))"
proof -
  have t: "target (onKeyDown ''Space'' False (constructor (exampleOptions None None))) = None"
    by (simp add: onKeyDown_def constructor_def exampleOptions_def)
  have j: "jumpRequested (onKeyDown ''Space'' False (constructor (exampleOptions None None)))"
    by (simp add: onKeyDown_def)
  show ?thesis
    using update_without_target [OF t, of exampleThree "1 / 60"] t j by simp
qed

subsection \<open>The camera orbit\<close>

lemma clamp_range: "mn \<le> mx \<Longrightarrow> mn \<le> clamp v mn mx \<and> clamp v mn mx \<le> mx"
  by (simp add: clamp_def)

lemma settings_constructor: "settings (constructor opts)"
  by (simp add: settings_def constructor_def)

lemma orbit_constructor: "orbitInRange (constructor opts)"
  by (simp add: orbitInRange_def constructor_def)

lemma update_settings: "settings (snd (update L dt s)) = settings s"
  by (simp add: update_def settings_def Let_def split: option.splits prod.splits)

lemma update_orbit: "orbitInRange (snd (update L dt s)) = orbitInRange s"
  by (simp add: update_def orbitInRange_def Let_def split: option.splits prod.splits)

lemma step_settings: "settings (snd (step L i s)) = settings s"
  by (cases i)
     (simp_all add: update_settings, simp_all add: settings_def onKeyDown_def onKeyUp_def onPointerDown_def
      onPointerMove_def onPointerUp_def onWheel_def Let_def)

lemma step_orbit:
  assumes "settings s" and "orbitInRange s"
  shows "orbitInRange (snd (step L i s))"
proof (cases i)
  case (PointerMove pid cx cy)
  have "minPhi s \<le> maxPhi s"
    using assms(1) by (simp add: settings_def)
  then show ?thesis
    using assms(2) PointerMove clamp_range [of "minPhi s" "maxPhi s"]
    by (simp add: orbitInRange_def onPointerMove_def Let_def)
next
  case (Wheel deltaY)
  have "minDistance s \<le> maxDistance s"
    using assms(1) by (simp add: settings_def)
  then show ?thesis
    using assms(2) Wheel clamp_range [of "minDistance s" "maxDistance s"]
    by (simp add: orbitInRange_def onWheel_def Let_def)
next
  case (Update dt)
  then show ?thesis using assms(2) by (simp add: update_orbit)
qed (use assms(2) in \<open>simp_all add: orbitInRange_def onKeyDown_def onKeyUp_def onPointerDown_def
      onPointerUp_def Let_def\<close>)

lemma run_settings: "settings (run L ins s) = settings s"
  by (induction ins arbitrary: s) (simp_all add: step_settings)

lemma run_orbit: "settings s \<Longrightarrow> orbitInRange s \<Longrightarrow> orbitInRange (run L ins s)"
  by (induction ins arbitrary: s) (simp_all add: step_settings step_orbit)

lemma run_append: "run L (xs @ ys) s = run L ys (run L xs s)"
  by (induction xs arbitrary: s) simp_all

lemma max_shift: "0 \<le> b \<Longrightarrow> max m (max m a - b) = max m (a - b)" for a b m :: real
  by (simp add: max_def)

lemma min_shift: "0 \<le> b \<Longrightarrow> min m (min m a + b) = min m (a + b)" for a b m :: real
  by (simp add: min_def)

lemma onWheel_in:
  assumes "settings s" "orbitInRange s" "d < 0"
  shows "distance (onWheel d s) = max (minDistance s) (distance s - 0.85)"
  using assms by (simp add: onWheel_def Let_def clamp_def orbitInRange_def settings_def)

lemma onWheel_out:
  assumes "settings s" "orbitInRange s" "0 < d"
  shows "distance (onWheel d s) = min (maxDistance s) (distance s + 0.85)"
  using assms by (simp add: onWheel_def Let_def clamp_def orbitInRange_def settings_def)

lemma wheel_in:
  assumes "settings s" "orbitInRange s" "\<forall>d\<in>set ds. d < 0"
  shows "distance (run L (map Wheel ds) s)
           = max (minDistance s) (distance s - 0.85 * real (length ds))"
  using assms
proof (induction ds arbitrary: s)
  case Nil
  then show ?case by (simp add: orbitInRange_def)
next
  case (Cons d ds)
  let ?s1 = "onWheel d s"
  have s1: "settings ?s1" "orbitInRange ?s1"
    using step_settings [of L "Wheel d" s] step_orbit [of s L "Wheel d"] Cons.prems by simp_all
  have d: "d < 0" and ds: "\<forall>d\<in>set ds. d < 0"
    using Cons.prems by simp_all
  have c: "minDistance ?s1 = minDistance s"
    by (simp add: onWheel_def Let_def)
  have "distance (run L (map Wheel (d # ds)) s) = distance (run L (map Wheel ds) ?s1)"
    by simp
  also have "\<dots> = max (minDistance ?s1) (distance ?s1 - 0.85 * real (length ds))"
    using s1 ds by (rule Cons.IH)
  also have "\<dots> = max (minDistance s)
                     (max (minDistance s) (distance s - 0.85) - 0.85 * real (length ds))"
    using onWheel_in [OF Cons.prems(1,2) d] c by simp
  also have "\<dots> = max (minDistance s) (distance s - 0.85 - 0.85 * real (length ds))"
    by (rule max_shift) simp
  finally have fin: "distance (run L (map Wheel (d # ds)) s)
      = max (minDistance s) (distance s - 0.85 - 0.85 * real (length ds))" .
  have eq: "distance s - 0.85 - 0.85 * real (length ds) = distance s - 0.85 * real (length (d # ds))"
    by (simp add: field_simps)
  show ?case
    by (simp only: fin eq)
qed

lemma wheel_out:
  assumes "settings s" "orbitInRange s" "\<forall>d\<in>set ds. 0 < d"
  shows "distance (run L (map Wheel ds) s)
           = min (maxDistance s) (distance s + 0.85 * real (length ds))"
  using assms
proof (induction ds arbitrary: s)
  case Nil
  then show ?case by (simp add: orbitInRange_def)
next
  case (Cons d ds)
  let ?s1 = "onWheel d s"
  have s1: "settings ?s1" "orbitInRange ?s1"
    using step_settings [of L "Wheel d" s] step_orbit [of s L "Wheel d"] Cons.prems by simp_all
  have d: "0 < d" and ds: "\<forall>d\<in>set ds. 0 < d"
    using Cons.prems by simp_all
  have c: "maxDistance ?s1 = maxDistance s"
    by (simp add: onWheel_def Let_def)
  have "distance (run L (map Wheel (d # ds)) s) = distance (run L (map Wheel ds) ?s1)"
    by simp
  also have "\<dots> = min (maxDistance ?s1) (distance ?s1 + 0.85 * real (length ds))"
    using s1 ds by (rule Cons.IH)
  also have "\<dots> = min (maxDistance s)
                     (min (maxDistance s) (distance s + 0.85) + 0.85 * real (length ds))"
    using onWheel_out [OF Cons.prems(1,2) d] c by simp
  also have "\<dots> = min (maxDistance s) (distance s + 0.85 + 0.85 * real (length ds))"
    by (rule min_shift) simp
  finally have fin: "distance (run L (map Wheel (d # ds)) s)
      = min (maxDistance s) (distance s + 0.85 + 0.85 * real (length ds))" .
  have eq: "distance s + 0.85 + 0.85 * real (length ds) = distance s + 0.85 * real (length (d # ds))"
    by (simp add: field_simps)
  show ?case
    by (simp only: fin eq)
qed

lemma onPointerMove_up:
  assumes "settings s" "orbitInRange s" "dragging s" "pointerId s = Some pid"
    and "cy \<le> lastPointerY s"
  shows "phi (onPointerMove pid cx cy s)
           = max (minPhi s) (phi s - rotateSpeed * (lastPointerY s - cy))"
proof -
  have "(cy - lastPointerY s) * rotateSpeed \<le> 0"
    using assms(5) by (simp add: rotateSpeed_def mult_le_0_iff)
  then have "min (maxPhi s) (phi s + (cy - lastPointerY s) * rotateSpeed)
               = phi s + (cy - lastPointerY s) * rotateSpeed"
    using assms(2) by (simp add: orbitInRange_def)
  then show ?thesis
    using assms(3,4) by (simp add: onPointerMove_def Let_def clamp_def algebra_simps)
qed

lemma onPointerMove_fields:
  assumes "dragging s" "pointerId s = Some pid"
  shows "dragging (onPointerMove pid cx cy s)" "pointerId (onPointerMove pid cx cy s) = Some pid"
    "lastPointerY (onPointerMove pid cx cy s) = cy" "minPhi (onPointerMove pid cx cy s) = minPhi s"
  using assms by (simp_all add: onPointerMove_def Let_def)

lemma drag_up_final:
  assumes "dragging s" "pointerId s = Some pid" "upward (lastPointerY s) ps"
  shows "lastPointerY (run L (map (drag pid) ps) s) \<le> lastPointerY s"
  using assms
proof (induction ps arbitrary: s)
  case Nil
  show ?case by simp
next
  case (Cons p ps)
  let ?s1 = "onPointerMove pid (fst p) (snd p) s"
  have up: "snd p \<le> lastPointerY s" "upward (snd p) ps"
    using Cons.prems(3) by simp_all
  note f = onPointerMove_fields [OF Cons.prems(1,2), of "fst p" "snd p"]
  have r: "run L (map (drag pid) (p # ps)) s = run L (map (drag pid) ps) ?s1"
    by (simp add: drag_def)
  have "lastPointerY (run L (map (drag pid) ps) ?s1) \<le> lastPointerY ?s1"
    using f up(2) by (intro Cons.IH) simp_all
  then show ?case
    unfolding r using up(1) f(3) by linarith
qed

lemma drag_up:
  assumes "settings s" "orbitInRange s" "dragging s" "pointerId s = Some pid"
    and "upward (lastPointerY s) ps"
  shows "phi (run L (map (drag pid) ps) s)
           = max (minPhi s)
               (phi s - rotateSpeed * (lastPointerY s - lastPointerY (run L (map (drag pid) ps) s)))"
  using assms
proof (induction ps arbitrary: s)
  case Nil
  then show ?case by (simp add: orbitInRange_def)
next
  case (Cons p ps)
  let ?s1 = "onPointerMove pid (fst p) (snd p) s"
  let ?y = "lastPointerY (run L (map (drag pid) ps) ?s1)"
  have s1: "settings ?s1" "orbitInRange ?s1"
    using step_settings [of L "PointerMove pid (fst p) (snd p)" s]
      step_orbit [of s L "PointerMove pid (fst p) (snd p)"] Cons.prems by simp_all
  have up: "snd p \<le> lastPointerY s" "upward (snd p) ps"
    using Cons.prems(5) by simp_all
  note f = onPointerMove_fields [OF Cons.prems(3,4), of "fst p" "snd p"]
  have fin: "?y \<le> snd p"
    using drag_up_final [OF f(1,2), of ps L] up(2) f(3) by simp
  have r: "run L (map (drag pid) (p # ps)) s = run L (map (drag pid) ps) ?s1"
    by (simp add: drag_def)
  have "phi (run L (map (drag pid) ps) ?s1)
          = max (minPhi ?s1) (phi ?s1 - rotateSpeed * (lastPointerY ?s1 - ?y))"
    using up(2) f by (intro Cons.IH s1) simp_all
  also have "\<dots> = max (minPhi s)
      (max (minPhi s) (phi s - rotateSpeed * (lastPointerY s - snd p)) - rotateSpeed * (snd p - ?y))"
    using onPointerMove_up [OF Cons.prems(1,2,3,4) up(1), of "fst p"] f(3,4) by simp
  also have "\<dots> = max (minPhi s)
      (phi s - rotateSpeed * (lastPointerY s - snd p) - rotateSpeed * (snd p - ?y))"
    using fin by (intro max_shift) (simp add: rotateSpeed_def)
  finally show ?case
    unfolding r by (simp add: algebra_simps)
qed


lemma drag_bound: "p \<le> 1.45 \<Longrightarrow> 215 \<le> D \<Longrightarrow> p - 0.0042 * D \<le> (0.55::real)"
  by simp

text \<open>
  C9, as amended. In every state reachable from the constructor the polar angle is within
  \<open>[minPhi, maxPhi]\<close> and the distance within \<open>[minDistance, maxDistance]\<close>. Wheel events
  with negative \<^verbatim>\<open>deltaY\<close> (wheel up) lower the distance by 0.85 each down to \<open>minDistance\<close>,
  where it stays: 17 of them reach it from any reachable state. Wheel events with positive
  \<^verbatim>\<open>deltaY\<close> (wheel down) raise it up to \<open>maxDistance\<close> in the same way. An upward drag of
  the captured pointer lowers the polar angle down to \<open>minPhi\<close>, where it stays: 215 pixels
  of travel reach it from any reachable state.
\<close>

theorem orbit_clamps:
  assumes "s = run L ins (constructor opts)"
  shows "minPhi s \<le> phi s \<and> phi s \<le> maxPhi s
       \<and> minDistance s \<le> distance s \<and> distance s \<le> maxDistance s
       \<and> ((\<forall>d\<in>set ds. d < 0) \<longrightarrow>
            distance (run L (map Wheel ds) s)
              = max (minDistance s) (distance s - 0.85 * real (length ds))
            \<and> (17 \<le> length ds \<longrightarrow> distance (run L (map Wheel ds) s) = minDistance s))
       \<and> ((\<forall>d\<in>set ds. 0 < d) \<longrightarrow>
            distance (run L (map Wheel ds) s)
              = min (maxDistance s) (distance s + 0.85 * real (length ds))
            \<and> (17 \<le> length ds \<longrightarrow> distance (run L (map Wheel ds) s) = maxDistance s))
       \<and> (dragging s \<and> pointerId s = Some pid \<and> upward (lastPointerY s) ps \<longrightarrow>
            phi (run L (map (drag pid) ps) s)
              = max (minPhi s)
                  (phi s - rotateSpeed * (lastPointerY s - lastPointerY (run L (map (drag pid) ps) s)))
            \<and> (215 \<le> lastPointerY s - lastPointerY (run L (map (drag pid) ps) s) \<longrightarrow>
                 phi (run L (map (drag pid) ps) s) = minPhi s))"
proof -
  have st: "settings s"
    using assms by (simp add: run_settings settings_constructor)
  have orb: "orbitInRange s"
    unfolding assms by (rule run_orbit [OF settings_constructor orbit_constructor])
  have rng: "minPhi s \<le> phi s \<and> phi s \<le> maxPhi s
       \<and> minDistance s \<le> distance s \<and> distance s \<le> maxDistance s"
    using orb by (simp add: orbitInRange_def)
  have win: "distance (run L (map Wheel ds) s) = minDistance s"
    if "\<forall>d\<in>set ds. d < 0" "17 \<le> length ds"
  proof -
    have "0.85 * 17 \<le> 0.85 * real (length ds)"
      using that(2) by simp
    then have "distance s - 0.85 * real (length ds) \<le> minDistance s"
      using st orb by (simp add: settings_def orbitInRange_def)
    then show ?thesis
      using wheel_in [OF st orb that(1), of L] by simp
  qed
  have wout: "distance (run L (map Wheel ds) s) = maxDistance s"
    if "\<forall>d\<in>set ds. 0 < d" "17 \<le> length ds"
  proof -
    have "0.85 * 17 \<le> 0.85 * real (length ds)"
      using that(2) by simp
    then have "maxDistance s \<le> distance s + 0.85 * real (length ds)"
      using st orb by (simp add: settings_def orbitInRange_def)
    then show ?thesis
      using wheel_out [OF st orb that(1), of L] by simp
  qed
  have dr: "phi (run L (map (drag pid) ps) s) = minPhi s"
    if "dragging s" "pointerId s = Some pid" "upward (lastPointerY s) ps"
      "215 \<le> lastPointerY s - lastPointerY (run L (map (drag pid) ps) s)"
  proof -
    have mp: "minPhi s = 0.55" "maxPhi s = 1.45"
      using st by (simp_all add: settings_def)
    have "phi s \<le> 1.45"
      using orb mp by (simp add: orbitInRange_def)
    then have "phi s - rotateSpeed * (lastPointerY s - lastPointerY (run L (map (drag pid) ps) s))
                 \<le> minPhi s"
      using that(4) unfolding mp rotateSpeed_def by (rule drag_bound)
    then show ?thesis
      using drag_up [OF st orb that(1,2,3), of L] by simp
  qed
  show ?thesis
    using rng win wout dr wheel_in [OF st orb, of ds L] wheel_out [OF st orb, of ds L]
      drag_up [OF st orb, of pid ps L]
    by blast
qed

theorem orbit_clamps_witness:
  "17 \<le> length (replicate 17 (- 120 :: real))
   \<and> dragging (run exampleThree [PointerDown 0 1 400 300] (constructor (exampleOptions None None)))
   \<and> pointerId (run exampleThree [PointerDown 0 1 400 300] (constructor (exampleOptions None None)))
       = Some 1
   \<and> upward (lastPointerY (run exampleThree [PointerDown 0 1 400 300]
         (constructor (exampleOptions None None)))) [(400, 200), (400, 80)]
   \<and> 215 \<le> lastPointerY (run exampleThree [PointerDown 0 1 400 300]
         (constructor (exampleOptions None None)))
       - lastPointerY (run exampleThree (map (drag 1) [(400, 200), (400, 80)])
           (run exampleThree [PointerDown 0 1 400 300] (constructor (exampleOptions None None))))
   \<and> distance (run exampleThree (map Wheel (replicate 17 (- 120)))
        (run exampleThree [PointerDown 0 1 400 300] (constructor (exampleOptions None None)))) = 3.6
   \<and> distance (run exampleThree (map Wheel (replicate 17 120))
        (run exampleThree [PointerDown 0 1 400 300] (constructor (exampleOptions None None)))) = 18
   \<and> phi (run exampleThree (map (drag 1) [(400, 200), (400, 80)])
        (run exampleThree [PointerDown 0 1 400 300] (constructor (exampleOptions None None)))) = 0.55"
proof -
  let ?s = "run exampleThree [PointerDown 0 1 400 300] (constructor (exampleOptions None None))"
  have a: "\<forall>d\<in>set (replicate 17 (- 120 :: real)). d < 0"
    and b: "17 \<le> length (replicate 17 (- 120 :: real))"
    and c: "\<forall>d\<in>set (replicate 17 (120 :: real)). 0 < d"
    and b': "17 \<le> length (replicate 17 (120 :: real))"
    by simp_all
  have d: "dragging ?s" and e: "pointerId ?s = Some 1" and y: "lastPointerY ?s = 300"
    and m: "minDistance ?s = 3.6" "maxDistance ?s = 18" "minPhi ?s = 0.55"
    by (simp_all add: onPointerDown_def constructor_def)
  have u: "upward (lastPointerY ?s) [(400, 200), (400, 80)]"
    using y by simp
  have f: "lastPointerY (run exampleThree (map (drag 1) [(400, 200), (400, 80)]) ?s) = 80"
    using d e by (simp add: drag_def onPointerMove_def Let_def)
  have g: "215 \<le> lastPointerY ?s
             - lastPointerY (run exampleThree (map (drag 1) [(400, 200), (400, 80)]) ?s)"
    unfolding f y by simp
  have i: "distance (run exampleThree (map Wheel (replicate 17 (- 120))) ?s) = minDistance ?s"
    using orbit_clamps [OF refl, of exampleThree "[PointerDown 0 1 400 300]"
        "exampleOptions None None" "replicate 17 (- 120)"] a b
    by blast
  have j: "distance (run exampleThree (map Wheel (replicate 17 120)) ?s) = maxDistance ?s"
    using orbit_clamps [OF refl, of exampleThree "[PointerDown 0 1 400 300]"
        "exampleOptions None None" "replicate 17 120"] c b'
    by blast
  have k: "phi (run exampleThree (map (drag 1) [(400, 200), (400, 80)]) ?s) = minPhi ?s"
    using orbit_clamps [OF refl, of exampleThree "[PointerDown 0 1 400 300]"
        "exampleOptions None None" _ 1 "[(400, 200), (400, 80)]"] d e u g
    by blast
  show ?thesis
    using a b c d e u g i j k m by (simp only: simp_thms)
qed

text \<open>
  C9 as stated has wheel-down deltas saturate the distance at \<open>minDistance\<close>. A wheel turned
  down reports a positive \<^verbatim>\<open>deltaY\<close>; seventeen such events from the constructed state leave
  the distance at \<open>maxDistance\<close>, not at \<open>minDistance\<close>.
\<close>

theorem wheel_down_counterexample:
  "distance (run exampleThree (map Wheel (replicate 17 120)) (constructor (exampleOptions None None)))
     = maxDistance (constructor (exampleOptions None None))
   \<and> distance (run exampleThree (map Wheel (replicate 17 120)) (constructor (exampleOptions None None)))
     \<noteq> minDistance (constructor (exampleOptions None None))"
proof -
  have "distance (run exampleThree (map Wheel (replicate 17 120)) (constructor (exampleOptions None None)))
     = min (maxDistance (constructor (exampleOptions None None)))
         (distance (constructor (exampleOptions None None)) + 0.85 * real (length (replicate 17 (120::real))))"
    by (rule wheel_out [OF settings_constructor orbit_constructor]) simp
  then show ?thesis
    by (simp add: constructor_def)
qed

subsection \<open>The vertical motion of a frame\<close>

lemma collide_vy:
  "vy (fst (collide pr pv c)) = vy (fst pv) \<and> vy (snd (collide pr pv c)) = vy (snd pv)"
  by (simp add: collide_def Let_def split: prod.splits)

lemma treeCollisions_vy:
  "vy (fst (treeCollisions pr cs pv)) = vy (fst pv)
   \<and> vy (snd (treeCollisions pr cs pv)) = vy (snd pv)"
  unfolding treeCollisions_def
  by (induction cs arbitrary: pv) (simp_all add: collide_vy)

lemma treeCollisions_vyD:
  assumes "treeCollisions pr cs (p, v) = (p', v')"
  shows "vy p' = vy p" "vy v' = vy v"
  using treeCollisions_vy [of pr cs "(p, v)"] assms by simp_all

lemma update_vertical:
  fixes s :: controller and dt :: real and tg :: object3d
  assumes "target s = Some tg"
  defines "og \<equiv> onGround s \<and> \<not> jumpRequested s"
  defines "v1 \<equiv> (if onGround s \<and> jumpRequested s then jumpSpeed s else vy (velocity s))
                  - (if og then 0 else gravity s * dt)"
  defines "y1 \<equiv> vy (position tg) + v1 * dt"
  shows "targetY (snd (update L dt s))
           = Some (if y1 \<le> groundLevel (environment s) then groundLevel (environment s) else y1)"
    and "vy (velocity (snd (update L dt s)))
           = (if y1 \<le> groundLevel (environment s) then 0 else v1)"
    and "onGround (snd (update L dt s)) = (y1 \<le> groundLevel (environment s) \<or> og)"
    and "environment (snd (update L dt s)) = environment s"
  using assms(1) unfolding og_def v1_def y1_def
  by (auto simp add: update_def targetY_def Let_def jumpCheck_def applyGravity_def
      groundCollision_def integrate_def worldBounds_def dampVelocity_def vec_def
      split: prod.splits if_splits dest: treeCollisions_vyD)

text \<open>
  C6. With the ground at height 0 and no jump requested, a frame with a positive time step
  that starts above the ground with a downward (or zero) vertical velocity never ends below
  height 0; and a frame that starts grounded at height 0 with vertical velocity 0 ends at
  height exactly 0 with vertical velocity exactly 0, still grounded.
\<close>

theorem ground_clamp:
  assumes "groundLevel (environment s) = 0" and "target s = Some tg"
    and "\<not> jumpRequested s" and "0 < dt"
  shows "(0 < vy (position tg) \<and> vy (velocity s) \<le> 0 \<longrightarrow>
            (\<exists>h. targetY (snd (update L dt s)) = Some h \<and> 0 \<le> h))
       \<and> (onGround s \<and> vy (position tg) = 0 \<and> vy (velocity s) = 0 \<longrightarrow>
            targetY (snd (update L dt s)) = Some 0
            \<and> vy (velocity (snd (update L dt s))) = 0
            \<and> onGround (snd (update L dt s)))"
  using assms(1,3) update_vertical(1,2,3) [OF assms(2), of L dt]
  by (auto split: if_splits)

theorem ground_clamp_witness:
  "groundLevel (environment ((constructor (exampleOptions (Some (exampleTarget\<lparr>position := vec 0 1 0\<rparr>))
        (Some (exampleEnvironment []))))\<lparr>onGround := False, velocity := vec 0 (- 3) 0\<rparr>)) = 0
   \<and> (\<exists>h. targetY (snd (update exampleThree (1 / 20)
        ((constructor (exampleOptions (Some (exampleTarget\<lparr>position := vec 0 1 0\<rparr>))
          (Some (exampleEnvironment []))))\<lparr>onGround := False, velocity := vec 0 (- 3) 0\<rparr>))) = Some h
        \<and> 0 \<le> h)
   \<and> onGround (constructor (exampleOptions (Some exampleTarget) (Some (exampleEnvironment []))))
   \<and> targetY (snd (update exampleThree (1 / 20)
        (constructor (exampleOptions (Some exampleTarget) (Some (exampleEnvironment [])))))) = Some 0
   \<and> vy (velocity (snd (update exampleThree (1 / 20)
        (constructor (exampleOptions (Some exampleTarget) (Some (exampleEnvironment []))))))) = 0"
proof -
  let ?a = "(constructor (exampleOptions (Some (exampleTarget\<lparr>position := vec 0 1 0\<rparr>))
        (Some (exampleEnvironment []))))\<lparr>onGround := False, velocity := vec 0 (- 3) 0\<rparr>"
  let ?b = "constructor (exampleOptions (Some exampleTarget) (Some (exampleEnvironment [])))"
  have a: "groundLevel (environment ?a) = 0" "target ?a = Some (exampleTarget\<lparr>position := vec 0 1 0\<rparr>)"
    "\<not> jumpRequested ?a" "0 < vy (position (exampleTarget\<lparr>position := vec 0 1 0\<rparr>))"
    "vy (velocity ?a) \<le> 0"
    by (simp_all add: constructor_def exampleOptions_def exampleEnvironment_def groundLevel_def vec_def)
  have b: "groundLevel (environment ?b) = 0" "target ?b = Some exampleTarget"
    "\<not> jumpRequested ?b" "onGround ?b" "vy (position exampleTarget) = 0" "vy (velocity ?b) = 0"
    by (simp_all add: constructor_def exampleOptions_def exampleEnvironment_def groundLevel_def
        exampleTarget_def vec_def)
  have t: "(0::real) < 1 / 20"
    by simp
  show ?thesis
    using ground_clamp [OF a(1,2,3) t, of exampleThree] ground_clamp [OF b(1,2,3) t, of exampleThree]
      a b
    by blast
qed

subsection \<open>The grounded flag\<close>

lemma grounded_update:
  assumes "grounded s"
  shows "grounded (snd (update L dt s))"
proof (cases "target s")
  case None
  then show ?thesis using assms by (simp add: update_def)
next
  case (Some tg)
  obtain tg' where t': "target (snd (update L dt s)) = Some tg'"
    using update_target_None [of L dt s] Some by (cases "target (snd (update L dt s))") auto
  have y: "targetY (snd (update L dt s)) = Some (vy (position tg'))"
    using t' by (simp add: targetY_def)
  show ?thesis
    using assms Some t' update_vertical [OF Some, of L dt] y
    by (auto simp add: grounded_def split: if_splits)
qed

lemma event_physics:
  assumes "\<not> isUpdate i"
  shows "target (snd (step L i s)) = target s" "onGround (snd (step L i s)) = onGround s"
    "velocity (snd (step L i s)) = velocity s" "environment (snd (step L i s)) = environment s"
  using assms
  by (cases i; simp add: onKeyDown_def onKeyUp_def onPointerDown_def onPointerMove_def
      onPointerUp_def onWheel_def Let_def)+

lemma grounded_step:
  assumes "grounded s"
  shows "grounded (snd (step L i s))"
proof (cases "isUpdate i")
  case True
  then obtain dt where "i = Update dt"
    by (cases i) simp_all
  then show ?thesis
    using assms by (simp add: grounded_update)
next
  case False
  show ?thesis
    using assms unfolding grounded_def event_physics [OF False] .
qed

lemma grounded_run: "grounded s \<Longrightarrow> grounded (run L ins s)"
  by (induction ins arbitrary: s) (simp_all add: grounded_step)

lemma grounded_constructor:
  assumes "opt_target opts = Some tg" "vy (position tg) \<le> groundLevel (opt_environment opts)"
  shows "grounded (constructor opts)"
  using assms by (simp add: grounded_def constructor_def vec_def)

lemma grounded_loadPlayer: "grounded (loadPlayer cam playerRoot env th pr)"
  unfolding loadPlayer_def Let_def
  by (rule grounded_constructor [where tg = "playerRoot\<lparr>position := vec 0 (case groundY env of None \<Rightarrow> 0 | Some g \<Rightarrow> g) 0\<rparr>"])
     (simp_all add: groundLevel_def vec_def)

lemma loadPlayer_onGround:
  assumes "s = run L ins (loadPlayer cam playerRoot env th pr)" and "target s = Some tg"
  shows "onGround s \<longleftrightarrow> vy (position tg) \<le> groundLevel (environment s)"
proof -
  have "grounded s"
    unfolding assms(1) by (rule grounded_run [OF grounded_loadPlayer])
  then show ?thesis
    using assms(2) by (auto simp add: grounded_def split: if_splits)
qed

text \<open>
  C4, as amended. When the controller is constructed with its target at or below the ground
  height, as \<^verbatim>\<open>loadPlayer\<close> places it, then in every state it reaches, at construction and
  after every handler and every frame, \<^verbatim>\<open>onGround\<close> is true if and only if the height of
  the target is at or below the ground height of the environment.
\<close>

theorem onGround_iff_at_ground:
  assumes "opt_target opts = Some tg0"
    and "vy (position tg0) \<le> groundLevel (opt_environment opts)"
    and "s = run L ins (constructor opts)" and "target s = Some tg"
  shows "onGround s \<longleftrightarrow> vy (position tg) \<le> groundLevel (environment s)"
proof -
  have "grounded s"
    unfolding assms(3) by (rule grounded_run [OF grounded_constructor [OF assms(1,2)]])
  then show ?thesis
    using assms(4) by (auto simp add: grounded_def split: if_splits)
qed

theorem onGround_iff_at_ground_witness:
  "opt_target (exampleOptions (Some exampleTarget) (Some (exampleEnvironment []))) = Some exampleTarget
   \<and> vy (position exampleTarget)
       \<le> groundLevel (opt_environment (exampleOptions (Some exampleTarget) (Some (exampleEnvironment []))))
   \<and> target (run exampleThree [KeyDown ''Space'' False, Update (1 / 60)]
       (constructor (exampleOptions (Some exampleTarget) (Some (exampleEnvironment [])))))
     = Some (the (target (run exampleThree [KeyDown ''Space'' False, Update (1 / 60)]
         (constructor (exampleOptions (Some exampleTarget) (Some (exampleEnvironment [])))))))
   \<and> \<not> onGround (run exampleThree [KeyDown ''Space'' False, Update (1 / 60)]
       (constructor (exampleOptions (Some exampleTarget) (Some (exampleEnvironment [])))))
   \<and> \<not> vy (position (the (target (run exampleThree [KeyDown ''Space'' False, Update (1 / 60)]
         (constructor (exampleOptions (Some exampleTarget) (Some (exampleEnvironment []))))))))
       \<le> groundLevel (environment (run exampleThree [KeyDown ''Space'' False, Update (1 / 60)]
         (constructor (exampleOptions (Some exampleTarget) (Some (exampleEnvironment []))))))
   \<and> onGround (run exampleThree []
       (constructor (exampleOptions (Some exampleTarget) (Some (exampleEnvironment [])))))
   \<and> vy (position (the (target (run exampleThree []
         (constructor (exampleOptions (Some exampleTarget) (Some (exampleEnvironment []))))))))
       \<le> groundLevel (environment (run exampleThree []
         (constructor (exampleOptions (Some exampleTarget) (Some (exampleEnvironment []))))))"
proof -
  let ?o = "exampleOptions (Some exampleTarget) (Some (exampleEnvironment []))"
  let ?p = "constructor ?o"
  let ?k = "onKeyDown ''Space'' False ?p"
  let ?s = "run exampleThree [KeyDown ''Space'' False, Update (1 / 60)] ?p"
  have o: "opt_target ?o = Some exampleTarget"
    "vy (position exampleTarget) \<le> groundLevel (opt_environment ?o)"
    by (simp_all add: exampleOptions_def exampleTarget_def exampleEnvironment_def groundLevel_def
        vec_def)
  have k: "target ?k = Some exampleTarget" "onGround ?k" "jumpRequested ?k"
    "jumpSpeed ?k = 7.2" "gravity ?k = 18.5" "groundLevel (environment ?k) = 0"
    "vy (position exampleTarget) = 0"
    by (simp_all add: onKeyDown_def constructor_def exampleOptions_def exampleEnvironment_def
        exampleTarget_def groundLevel_def vec_def)
  have t: "target ?s = Some (the (target ?s))"
    using update_target_None [of exampleThree "1 / 60" ?k] k(1) by auto
  have a: "\<not> onGround ?s"
    using update_vertical(3) [OF k(1), of exampleThree "1 / 60"] k(2-)
    by simp
  have p: "target (run exampleThree [] ?p) = Some (the (target (run exampleThree [] ?p)))"
    "onGround (run exampleThree [] ?p)"
    by (simp_all add: constructor_def exampleOptions_def)
  show ?thesis
    using onGround_iff_at_ground [OF o refl t] onGround_iff_at_ground [OF o refl p(1)] o t a p(2)
    by blast
qed

text \<open>
  C4 as stated covers every construction. The constructor sets \<^verbatim>\<open>onGround = true\<close> at any
  height: a controller constructed with its target at height 1 over ground height 0 is
  grounded above the ground, and since gravity acts only while airborne it is still
  grounded at height 1 after a frame.
\<close>

theorem onGround_counterexample:
  "target (constructor (exampleOptions (Some (exampleTarget\<lparr>position := vec 0 1 0\<rparr>))
       (Some (exampleEnvironment []))))
     = Some (exampleTarget\<lparr>position := vec 0 1 0\<rparr>)
   \<and> onGround (constructor (exampleOptions (Some (exampleTarget\<lparr>position := vec 0 1 0\<rparr>))
       (Some (exampleEnvironment []))))
   \<and> \<not> vy (position (exampleTarget\<lparr>position := vec 0 1 0\<rparr>))
       \<le> groundLevel (environment (constructor
             (exampleOptions (Some (exampleTarget\<lparr>position := vec 0 1 0\<rparr>))
                (Some (exampleEnvironment [])))))
   \<and> onGround (snd (update exampleThree (1 / 60)
       (constructor (exampleOptions (Some (exampleTarget\<lparr>position := vec 0 1 0\<rparr>))
          (Some (exampleEnvironment []))))))
   \<and> targetY (snd (update exampleThree (1 / 60)
       (constructor (exampleOptions (Some (exampleTarget\<lparr>position := vec 0 1 0\<rparr>))
          (Some (exampleEnvironment [])))))) = Some 1"
proof -
  let ?tg = "exampleTarget\<lparr>position := vec 0 1 0\<rparr>"
  let ?s = "constructor (exampleOptions (Some ?tg) (Some (exampleEnvironment [])))"
  have c: "target ?s = Some ?tg" "onGround ?s" "\<not> jumpRequested ?s"
    "vy (velocity ?s) = 0" "groundLevel (environment ?s) = 0" "vy (position ?tg) = 1"
    by (simp_all add: constructor_def exampleOptions_def exampleEnvironment_def groundLevel_def
        vec_def)
  have "onGround (snd (update exampleThree (1 / 60) ?s))"
    "targetY (snd (update exampleThree (1 / 60) ?s)) = Some 1"
    using update_vertical(1,3) [OF c(1), of exampleThree "1 / 60"] c(2-) by simp_all
  then show ?thesis
    using c by simp
qed

subsection \<open>Jumping\<close>

lemma jumpApplied_iff: "jumpApplied s = (target s \<noteq> None \<and> onGround s \<and> jumpRequested s)"
  by (auto simp add: jumpApplied_def jumpCheck_def)

lemma jump_frame:
  assumes "target a = Some tg" "jumpApplied a"
  shows "if vy (position tg) + (jumpSpeed a - gravity a * dt) * dt \<le> groundLevel (environment a)
         then onGround (snd (update L dt a)) \<and> vy (velocity (snd (update L dt a))) = 0
              \<and> targetY (snd (update L dt a)) = Some (groundLevel (environment a))
         else \<not> onGround (snd (update L dt a))
              \<and> vy (velocity (snd (update L dt a))) = jumpSpeed a - gravity a * dt
              \<and> targetY (snd (update L dt a))
                  = Some (vy (position tg) + (jumpSpeed a - gravity a * dt) * dt)"
  using assms(2) update_vertical(1,2,3) [OF assms(1), of L dt]
  by (simp add: jumpApplied_iff)

lemma event_jumpRequested:
  assumes "\<not> isUpdate i" "\<not> freshJumpPress i"
  shows "jumpRequested (snd (step L i s)) = jumpRequested s"
  using assms
  by (cases i; auto simp add: onKeyDown_def onKeyUp_def onPointerDown_def onPointerMove_def
      onPointerUp_def onWheel_def Let_def)

lemma impulses_none:
  assumes "\<not> jumpRequested s" "\<forall>i\<in>set ins. \<not> freshJumpPress i"
  shows "impulses L ins s = 0"
  using assms
proof (induction ins arbitrary: s)
  case Nil
  show ?case by simp
next
  case (Cons i ins)
  have rest: "\<forall>i\<in>set ins. \<not> freshJumpPress i" and here: "\<not> freshJumpPress i"
    using Cons.prems(2) by simp_all
  show ?case
  proof (cases "isUpdate i")
    case True
    then obtain dt where i: "i = Update dt"
      by (cases i) simp_all
    have "\<not> jumpRequested (snd (update L dt s))"
      using Cons.prems(1) by (simp add: update_jumpRequested)
    then have "impulses L ins (snd (update L dt s)) = 0"
      using rest by (rule Cons.IH)
    then show ?thesis
      using Cons.prems(1) i by (simp add: jumpApplied_iff)
  next
    case False
    have "\<not> jumpRequested (snd (step L i s))"
      using Cons.prems(1) event_jumpRequested [OF False here] by simp
    then have "impulses L ins (snd (step L i s)) = 0"
      using rest by (rule Cons.IH)
    then show ?thesis
      using False by (cases i) simp_all
  qed
qed

lemma impulses_one:
  assumes "target s \<noteq> None" "onGround s" "jumpRequested s"
    and "\<forall>i\<in>set ins. \<not> freshJumpPress i" "\<exists>i\<in>set ins. isUpdate i"
  shows "impulses L ins s = 1"
  using assms
proof (induction ins arbitrary: s)
  case Nil
  then show ?case by simp
next
  case (Cons i ins)
  have rest: "\<forall>i\<in>set ins. \<not> freshJumpPress i" and here: "\<not> freshJumpPress i"
    using Cons.prems(4) by simp_all
  show ?case
  proof (cases "isUpdate i")
    case True
    then obtain dt where i: "i = Update dt"
      by (cases i) simp_all
    have "\<not> jumpRequested (snd (update L dt s))"
      using Cons.prems(1) by (simp add: update_jumpRequested)
    then have "impulses L ins (snd (update L dt s)) = 0"
      using rest by (rule impulses_none)
    then show ?thesis
      using Cons.prems(1,2,3) i by (simp add: jumpApplied_iff)
  next
    case False
    have more: "\<exists>i\<in>set ins. isUpdate i"
      using Cons.prems(5) False by simp
    have "impulses L ins (snd (step L i s)) = 1"
      using Cons.prems(1,2,3) event_physics(1,2) [OF False, of L s]
        event_jumpRequested [OF False here, of L s] rest more
      by (intro Cons.IH) simp_all
    then show ?thesis
      using False by (cases i) simp_all
  qed
qed

lemma jumpCheck_applied:
  "jumpApplied s \<Longrightarrow> jumpCheck s v = (if onJump s then [OnJump] else [], v\<lparr>vy := jumpSpeed s\<rparr>, False)"
  by (simp add: jumpApplied_iff jumpCheck_def)

lemma airborne_press_discarded:
  assumes "target a \<noteq> None" "\<not> onGround a"
  shows "update L dt (a\<lparr>jumpRequested := True\<rparr>) = update L dt (a\<lparr>jumpRequested := False\<rparr>)"
  using assms
  by (auto simp add: update_def Let_def jumpCheck_def cameraTarget_def moveCamera_def
      desiredCameraPos_def desiredVel_def maxSpeed_def applyGravity_def faceMovement_def
      split: option.splits prod.splits)

lemma step_onJump: "onJump (snd (step L i s)) = onJump s"
  by (cases i)
     (simp_all add: update_def onKeyDown_def onKeyUp_def onPointerDown_def onPointerMove_def
      onPointerUp_def onWheel_def Let_def split: option.splits prod.splits)

lemma event_quiet: "\<not> isUpdate i \<Longrightarrow> fst (step L i s) = []"
  by (cases i) simp_all

lemma update_jump_calls:
  assumes "jumpApplied s"
  shows "fst (update L dt s) = (if onJump s then [OnJump] else [])"
  using assms
  by (auto simp add: jumpApplied_iff update_def jumpCheck_def Let_def split: prod.splits)

lemma calls_none:
  assumes "\<not> jumpRequested s" "\<forall>i\<in>set ins. \<not> freshJumpPress i"
  shows "calls L ins s = []"
  using assms
proof (induction ins arbitrary: s)
  case Nil
  show ?case by simp
next
  case (Cons i ins)
  have rest: "\<forall>i\<in>set ins. \<not> freshJumpPress i" and here: "\<not> freshJumpPress i"
    using Cons.prems(2) by simp_all
  have quiet: "fst (step L i s) = []"
    using Cons.prems(1) event_quiet [of i L s] by (cases i) (simp_all add: update_quiet)
  have "\<not> jumpRequested (snd (step L i s))"
  proof (cases "isUpdate i")
    case True
    then obtain dt where "i = Update dt"
      by (cases i) simp_all
    then show ?thesis
      using Cons.prems(1) by (simp add: update_jumpRequested)
  next
    case False
    then show ?thesis
      using Cons.prems(1) event_jumpRequested [OF False here] by simp
  qed
  then have "calls L ins (snd (step L i s)) = []"
    using rest by (rule Cons.IH)
  then show ?case
    using quiet by simp
qed

lemma calls_one:
  assumes "target s \<noteq> None" "onGround s" "jumpRequested s"
    and "\<forall>i\<in>set ins. \<not> freshJumpPress i" "\<exists>i\<in>set ins. isUpdate i"
  shows "calls L ins s = (if onJump s then [OnJump] else [])"
  using assms
proof (induction ins arbitrary: s)
  case Nil
  then show ?case by simp
next
  case (Cons i ins)
  have rest: "\<forall>i\<in>set ins. \<not> freshJumpPress i" and here: "\<not> freshJumpPress i"
    using Cons.prems(4) by simp_all
  show ?case
  proof (cases "isUpdate i")
    case True
    then obtain dt where i: "i = Update dt"
      by (cases i) simp_all
    have "\<not> jumpRequested (snd (update L dt s))"
      using Cons.prems(1) by (simp add: update_jumpRequested)
    then have "calls L ins (snd (update L dt s)) = []"
      using rest by (rule calls_none)
    moreover have "fst (update L dt s) = (if onJump s then [OnJump] else [])"
      using Cons.prems(1,2,3) by (intro update_jump_calls) (simp add: jumpApplied_iff)
    ultimately show ?thesis
      using i by simp
  next
    case False
    have more: "\<exists>i\<in>set ins. isUpdate i"
      using Cons.prems(5) False by simp
    have "calls L ins (snd (step L i s)) = (if onJump (snd (step L i s)) then [OnJump] else [])"
      using Cons.prems(1,2,3) event_physics(1,2) [OF False, of L s]
        event_jumpRequested [OF False here, of L s] rest more
      by (intro Cons.IH) simp_all
    then show ?thesis
      using event_quiet [OF False, of L s] by (simp add: step_onJump)
  qed
qed

text \<open>
  C5. Start grounded with a target, press the jump key (a key-down that is not a repeat) and
  let any inputs follow that contain a frame and no further fresh press of the jump key
  (auto-repeats of the held key are allowed): exactly one frame of the run applies the jump
  impulse, and \<^verbatim>\<open>onJump\<close>, when supplied, is invoked exactly once. The impulse is what the
  jump check does to a grounded controller with a request: the vertical velocity becomes
  \<^verbatim>\<open>jumpSpeed\<close> and the grounded flag false. The frame that applies it ends airborne with
  vertical velocity \<^verbatim>\<open>jumpSpeed - gravity * dt\<close>, unless the height it integrates to is not
  above the ground, in which case the ground collision of the same frame lands the
  character again. A frame that starts airborne ends the same whether or not a jump was
  requested, so a press consumed in the air changes nothing; and after every frame with a
  target the request flag is cleared, so the press is not kept for later.
\<close>

theorem jump_edge_triggered:
  assumes "target s \<noteq> None" and "onGround s"
    and "\<forall>i\<in>set ins. \<not> freshJumpPress i" and "\<exists>i\<in>set ins. isUpdate i"
  shows "impulses L ins (onKeyDown ''Space'' False s) = 1
       \<and> calls L ins (onKeyDown ''Space'' False s) = (if onJump s then [OnJump] else [])
       \<and> (\<forall>a v. onGround a \<and> jumpRequested a \<longrightarrow>
            jumpCheck a v = (if onJump a then [OnJump] else [], v\<lparr>vy := jumpSpeed a\<rparr>, False))
       \<and> (\<forall>a dt tg. target a = Some tg \<and> jumpApplied a \<longrightarrow>
            (if vy (position tg) + (jumpSpeed a - gravity a * dt) * dt
                  \<le> groundLevel (environment a)
             then onGround (snd (update L dt a)) \<and> vy (velocity (snd (update L dt a))) = 0
                  \<and> targetY (snd (update L dt a)) = Some (groundLevel (environment a))
             else \<not> onGround (snd (update L dt a))
                  \<and> vy (velocity (snd (update L dt a))) = jumpSpeed a - gravity a * dt
                  \<and> targetY (snd (update L dt a))
                      = Some (vy (position tg) + (jumpSpeed a - gravity a * dt) * dt)))
       \<and> (\<forall>a dt. target a \<noteq> None \<and> \<not> onGround a \<longrightarrow>
            update L dt (a\<lparr>jumpRequested := True\<rparr>) = update L dt (a\<lparr>jumpRequested := False\<rparr>))
       \<and> (\<forall>a dt. target a \<noteq> None \<longrightarrow> \<not> jumpRequested (snd (update L dt a)))"
proof -
  have "impulses L ins (onKeyDown ''Space'' False s) = 1"
    using assms by (intro impulses_one) (simp_all add: onKeyDown_def)
  moreover have "calls L ins (onKeyDown ''Space'' False s)
      = (if onJump (onKeyDown ''Space'' False s) then [OnJump] else [])"
    using assms by (intro calls_one) (simp_all add: onKeyDown_def)
  moreover have "onJump (onKeyDown ''Space'' False s) = onJump s"
    by (simp add: onKeyDown_def)
  moreover have "jumpCheck a v = (if onJump a then [OnJump] else [], v\<lparr>vy := jumpSpeed a\<rparr>, False)"
    if "onGround a \<and> jumpRequested a" for a v
    using that by (simp add: jumpCheck_def)
  ultimately show ?thesis
    using jump_frame [of _ _ _ L]
    by (simp add: airborne_press_discarded update_jumpRequested)
qed

theorem jump_edge_triggered_witness:
  "target (constructor (exampleOptions (Some exampleTarget) None)) \<noteq> None
   \<and> onGround (constructor (exampleOptions (Some exampleTarget) None))
   \<and> (\<exists>i\<in>set [Update (1 / 60), KeyDown ''Space'' True, Update (1 / 60), KeyUp ''Space'',
                 Update (1 / 60)]. isUpdate i)
   \<and> impulses exampleThree
        [Update (1 / 60), KeyDown ''Space'' True, Update (1 / 60), KeyUp ''Space'', Update (1 / 60)]
        (onKeyDown ''Space'' False (constructor (exampleOptions (Some exampleTarget) None))) = 1
   \<and> calls exampleThree
        [Update (1 / 60), KeyDown ''Space'' True, Update (1 / 60), KeyUp ''Space'', Update (1 / 60)]
        (onKeyDown ''Space'' False (constructor (exampleOptions (Some exampleTarget) None)))
       = [OnJump]
   \<and> jumpApplied (onKeyDown ''Space'' False (constructor (exampleOptions (Some exampleTarget) None)))
   \<and> \<not> onGround (snd (update exampleThree (1 / 60)
        (onKeyDown ''Space'' False (constructor (exampleOptions (Some exampleTarget) None)))))
   \<and> vy (velocity (snd (update exampleThree (1 / 60)
        (onKeyDown ''Space'' False (constructor (exampleOptions (Some exampleTarget) None))))))
       = 7.2 - 18.5 * (1 / 60)"
proof -
  let ?ins = "[Update (1 / 60), KeyDown ''Space'' True, Update (1 / 60), KeyUp ''Space'',
               Update (1 / 60)]"
  let ?s0 = "constructor (exampleOptions (Some exampleTarget) None)"
  let ?s1 = "onKeyDown ''Space'' False ?s0"
  have a: "target ?s0 \<noteq> None" and b: "onGround ?s0" and j: "onJump ?s0"
    by (simp_all add: constructor_def exampleOptions_def)
  have c: "\<forall>i\<in>set ?ins. \<not> freshJumpPress i" and d: "\<exists>i\<in>set ?ins. isUpdate i"
    by simp_all
  have k: "target ?s1 = Some exampleTarget" "jumpSpeed ?s1 = 7.2" "gravity ?s1 = 18.5"
    "groundLevel (environment ?s1) = 0" "vy (position exampleTarget) = 0"
    by (simp_all add: onKeyDown_def constructor_def exampleOptions_def exampleTarget_def
        groundLevel_def vec_def)
  have ja: "jumpApplied ?s1"
    by (simp add: jumpApplied_iff onKeyDown_def constructor_def exampleOptions_def)
  have rise: "\<not> vy (position exampleTarget) + (jumpSpeed ?s1 - gravity ?s1 * (1 / 60)) * (1 / 60)
             \<le> groundLevel (environment ?s1)"
    unfolding k by simp
  note main = jump_edge_triggered [OF a b c d, of exampleThree]
  have fr: "\<not> onGround (snd (update exampleThree (1 / 60) ?s1))
       \<and> vy (velocity (snd (update exampleThree (1 / 60) ?s1))) = jumpSpeed ?s1 - gravity ?s1 * (1 / 60)"
    using main k(1) ja rise by (metis (no_types, lifting))
  have v: "vy (velocity (snd (update exampleThree (1 / 60) ?s1))) = 7.2 - 18.5 * (1 / 60)"
    using fr unfolding k by simp
  show ?thesis
    using main a b d j ja fr v by simp
qed

subsection \<open>Tree collisions\<close>

lemma abs_le_sqrt_sum: "\<bar>a\<bar> \<le> sqrt (a * a + b * b)" for a b :: real
  using real_sqrt_sum_squares_ge1 [of "\<bar>a\<bar>" b] by (simp add: power2_eq_square)

lemma sqrt_sum_zero: "(sqrt (a * a + b * b) = 0) = (a = 0 \<and> b = 0)" for a b :: real
  by (simp add: add_nonneg_eq_0_iff)

text \<open>What one collider does to the position: nothing, or a move to the rim of its disc.\<close>

lemma collide_position:
  fixes p v :: vec3 and c :: collider and pr :: real
  defines "dx \<equiv> vx p - vx (centre c)" and "dz \<equiv> vz p - vz (centre c)"
  defines "d \<equiv> sqrt (dx * dx + dz * dz)"
  shows "fst (collide pr (p, v) c) =
           (if dx * dx + dz * dz < (pr + radius c) * (pr + radius c) \<and> d \<noteq> 0
            then p\<lparr>vx := vx (centre c) + dx * ((pr + radius c) / d),
                   vz := vz (centre c) + dz * ((pr + radius c) / d)\<rparr>
            else p)"
proof -
  have z: "d = 0 \<Longrightarrow> dx = 0 \<and> dz = 0"
    unfolding d_def by (simp add: sqrt_sum_zero)
  have m: "a + a / d * (r - d) = a * (r / d)" if "d \<noteq> 0" for a r :: real
    using that by (simp add: field_simps)
  have e: "vx p + dx / d * (r - d) = vx (centre c) + dx * (r / d)"
     "vz p + dz / d * (r - d) = vz (centre c) + dz * (r / d)" if "d \<noteq> 0" for r
    using m [OF that, of dx r] m [OF that, of dz r] by (simp_all add: dx_def dz_def)
  show ?thesis
  proof (cases "d = 0")
    case True
    then have "dx = 0" "dz = 0" using z by simp_all
    then show ?thesis
      using True unfolding d_def dx_def dz_def
      by (simp add: collide_def Let_def)
  next
    case False
    then show ?thesis
      using e [OF False] unfolding d_def dx_def dz_def
      by (simp add: collide_def Let_def)
  qed
qed

lemma collide_separates:
  assumes "0 < hdist p c" "hdist p c < pr + radius c"
  shows "hdist (fst (collide pr (p, v) c)) c = pr + radius c"
proof -
  define dx where "dx = vx p - vx (centre c)"
  define dz where "dz = vz p - vz (centre c)"
  define d where "d = sqrt (dx * dx + dz * dz)"
  define r where "r = pr + radius c"
  have d: "0 < d" "d < r" and h: "hdist p c = d"
    using assms by (simp_all add: hdist_def d_def dx_def dz_def r_def)
  have "d * d < r * r"
    using d by (intro mult_strict_mono) simp_all
  moreover have dd: "d * d = dx * dx + dz * dz"
    unfolding d_def by (simp add: add_nonneg_nonneg)
  ultimately have lt: "dx * dx + dz * dz < r * r"
    by simp
  have pos: "fst (collide pr (p, v) c)
      = p\<lparr>vx := vx (centre c) + dx * (r / d), vz := vz (centre c) + dz * (r / d)\<rparr>"
    using collide_position [of pr p v c] lt d(1)
    unfolding dx_def dz_def d_def r_def by simp
  have "(dx * (r / d)) * (dx * (r / d)) + (dz * (r / d)) * (dz * (r / d))
          = (dx * dx + dz * dz) * ((r / d) * (r / d))"
    by (simp add: algebra_simps add_divide_distrib)
  also have "\<dots> = (d * d) * ((r / d) * (r / d))"
    by (simp only: dd)
  also have "\<dots> = r * r"
    using d(1) by simp
  finally have "hdist (fst (collide pr (p, v) c)) c = sqrt (r * r)"
    unfolding pos by (simp add: hdist_def)
  then show ?thesis
    using d by (simp add: r_def)
qed

subsection \<open>The first frame after spawning\<close>

lemma idle_update_position:
  assumes "target s = Some tg" "keysDown s = {}" "velocity s = vec 0 0 0" "onGround s"
    "\<not> jumpRequested s" "vy (position tg) = groundLevel (environment s)"
  shows "targetPosition (snd (update L dt s))
           = Some (fst (treeCollisions (playerRadius s) (colliders (environment s))
                (worldBounds (half (environment s))
                   (vec (vx (position tg)) (groundLevel (environment s)) (vz (position tg))),
                 vec 0 0 0)))"
  using assms
  by (simp add: update_def targetPosition_def Let_def jumpCheck_def applyGravity_def
      groundCollision_def integrate_def dampVelocity_def desiredVel_def hasMove_idle
      multiplyScalar_def damp_def lerp_def vec_def moveDir_def
      split: prod.splits)
lemma loadPlayer_idle:
  "target (loadPlayer cam playerRoot env th pr)
     = Some (playerRoot\<lparr>position := vec 0 (groundLevel (Some env)) 0\<rparr>)"
  "keysDown (loadPlayer cam playerRoot env th pr) = {}"
  "velocity (loadPlayer cam playerRoot env th pr) = vec 0 0 0"
  "onGround (loadPlayer cam playerRoot env th pr)"
  "\<not> jumpRequested (loadPlayer cam playerRoot env th pr)"
  "environment (loadPlayer cam playerRoot env th pr) = Some env"
  "playerRadius (loadPlayer cam playerRoot env th pr) = pr"
  by (simp_all add: loadPlayer_def constructor_def groundLevel_def)

lemma loadPlayer_first_frame:
  "targetPosition (snd (update L dt (loadPlayer cam playerRoot env th pr)))
     = Some (fst (treeCollisions pr (colliders (Some env))
          (worldBounds (half (Some env)) (vec 0 (groundLevel (Some env)) 0), vec 0 0 0)))"
  using idle_update_position [OF loadPlayer_idle(1-5), where L = L and dt = dt]
  by (simp add: loadPlayer_idle vec_def)

text \<open>
  C3. The claim: from any position closer to the collider's centre than the sum of the
  radii, distance zero included, the collision step leaves the player at least that sum
  away. For a positive distance the step puts the player exactly on the rim
  (\<open>collide_separates\<close>). At distance zero the fallback \<^verbatim>\<open>0.0001\<close> replaces the distance,
  the normal \<^verbatim>\<open>(dx / d, dz / d)\<close> is the zero vector and the player is not moved: a player
  standing on the centre of a collider of radius 1 stays there, and a player spawned on a
  collider at the origin is still at the origin after a frame.
\<close>

theorem collider_centre_not_resolved:
  "hdist (vec 3 0 4) \<lparr>centre = vec 3 0 4, radius = 1\<rparr> = 0
   \<and> fst (treeCollisions 0.55 [\<lparr>centre = vec 3 0 4, radius = 1\<rparr>] (vec 3 0 4, vec 4.6 0 0))
       = vec 3 0 4
   \<and> hdist (fst (treeCollisions 0.55 [\<lparr>centre = vec 3 0 4, radius = 1\<rparr>] (vec 3 0 4, vec 4.6 0 0)))
        \<lparr>centre = vec 3 0 4, radius = 1\<rparr> < 0.55 + 1
   \<and> targetPosition (snd (update exampleThree (1 / 60)
        (loadPlayer exampleCamera exampleTarget
           (exampleEnvironment [\<lparr>centre = vec 0 0 0, radius = 1\<rparr>]) 1.25 0.55)))
       = Some (vec 0 0 0)"
proof -
  have "targetPosition (snd (update exampleThree (1 / 60)
        (loadPlayer exampleCamera exampleTarget
           (exampleEnvironment [\<lparr>centre = vec 0 0 0, radius = 1\<rparr>]) 1.25 0.55)))
       = Some (vec 0 0 0)"
    unfolding loadPlayer_first_frame
    by (simp add: exampleEnvironment_def colliders_def half_def groundLevel_def worldBounds_def
        margin_def clamp_def treeCollisions_def collide_def vec_def Let_def)
  then show ?thesis
    by (simp add: treeCollisions_def collide_def hdist_def vec_def Let_def)
qed

subsection \<open>World bounds\<close>

lemma clamp_abs:
  assumes "margin \<le> h"
  shows "\<bar>clamp v (- h + margin) (h - margin)\<bar> \<le> h - margin"
proof -
  have "- h + margin \<le> h - margin"
    using assms by simp
  then have "- h + margin \<le> clamp v (- h + margin) (h - margin)
           \<and> clamp v (- h + margin) (h - margin) \<le> h - margin"
    by (rule clamp_range)
  then show ?thesis
    by linarith
qed

lemma worldBounds_inside:
  assumes "margin \<le> h"
  shows "insideBounds (h - margin) (worldBounds h p)"
  using clamp_abs [OF assms] by (simp add: insideBounds_def worldBounds_def)

lemma scaled_offset_bound:
  fixes a b r :: real
  assumes "sqrt (a * a + b * b) \<noteq> 0"
  shows "\<bar>a * (r / sqrt (a * a + b * b))\<bar> \<le> \<bar>r\<bar>"
proof -
  define d where "d = sqrt (a * a + b * b)"
  have d: "0 < d"
    using assms real_sqrt_ge_zero [of "a * a + b * b"] unfolding d_def by (simp add: less_le)
  have "\<bar>a\<bar> \<le> d"
    unfolding d_def by (rule abs_le_sqrt_sum)
  then have "\<bar>a\<bar> * \<bar>r\<bar> \<le> d * \<bar>r\<bar>"
    by (intro mult_right_mono) simp_all
  then have "\<bar>a\<bar> * \<bar>r\<bar> / d \<le> \<bar>r\<bar>"
    using d by (simp add: pos_divide_le_eq mult.commute)
  moreover have "\<bar>a * (r / d)\<bar> = \<bar>a\<bar> * \<bar>r\<bar> / d"
    using d by (simp add: abs_mult)
  ultimately have "\<bar>a * (r / d)\<bar> \<le> \<bar>r\<bar>"
    by (simp only:)
  then show ?thesis
    unfolding d_def .
qed

lemma offset_inside: "\<bar>off\<bar> \<le> r \<Longrightarrow> \<bar>c\<bar> + r \<le> b \<Longrightarrow> \<bar>c + off\<bar> \<le> b" for b c off r :: real
  by linarith

lemma collide_inside:
  assumes "insideBounds b p" "discInside b pr c"
  shows "insideBounds b (fst (collide pr (p, v) c))"
proof -
  define dx where "dx = vx p - vx (centre c)"
  define dz where "dz = vz p - vz (centre c)"
  define d where "d = sqrt (dx * dx + dz * dz)"
  define r where "r = pr + radius c"
  have pos: "fst (collide pr (p, v) c) =
           (if dx * dx + dz * dz < r * r \<and> d \<noteq> 0
            then p\<lparr>vx := vx (centre c) + dx * (r / d), vz := vz (centre c) + dz * (r / d)\<rparr>
            else p)"
    unfolding dx_def dz_def d_def r_def by (rule collide_position)
  show ?thesis
  proof (cases "dx * dx + dz * dz < r * r \<and> d \<noteq> 0")
    case True
    then have d: "sqrt (dx * dx + dz * dz) \<noteq> 0"
      by (simp add: d_def)
    have x: "\<bar>dx * (r / d)\<bar> \<le> \<bar>r\<bar>"
      unfolding d_def using d by (rule scaled_offset_bound)
    have "sqrt (dz * dz + dx * dx) \<noteq> 0"
      using d by (simp add: add.commute)
    then have "\<bar>dz * (r / sqrt (dz * dz + dx * dx))\<bar> \<le> \<bar>r\<bar>"
      by (rule scaled_offset_bound)
    then have z: "\<bar>dz * (r / d)\<bar> \<le> \<bar>r\<bar>"
      by (simp add: d_def add.commute)
    have c: "\<bar>vx (centre c)\<bar> + \<bar>r\<bar> \<le> b" "\<bar>vz (centre c)\<bar> + \<bar>r\<bar> \<le> b"
      using assms(2) by (simp_all add: discInside_def r_def)
    have "\<bar>vx (centre c) + dx * (r / d)\<bar> \<le> b" "\<bar>vz (centre c) + dz * (r / d)\<bar> \<le> b"
      using offset_inside [OF x c(1)] offset_inside [OF z c(2)] by simp_all
    moreover have "fst (collide pr (p, v) c)
        = p\<lparr>vx := vx (centre c) + dx * (r / d), vz := vz (centre c) + dz * (r / d)\<rparr>"
      by (simp only: pos if_P [OF True])
    ultimately show ?thesis
      by (simp add: insideBounds_def)
  next
    case False
    have "fst (collide pr (p, v) c) = p"
      by (simp only: pos if_not_P [OF False])
    then show ?thesis
      using assms(1) by simp
  qed
qed

lemma treeCollisions_inside:
  assumes "insideBounds b (fst pv)" "\<forall>c\<in>set cs. discInside b pr c"
  shows "insideBounds b (fst (treeCollisions pr cs pv))"
  using assms unfolding treeCollisions_def
proof (induction cs arbitrary: pv)
  case Nil
  then show ?case by simp
next
  case (Cons c cs)
  have "insideBounds b (fst (collide pr pv c))"
    using collide_inside [of b "fst pv" pr c "snd pv"] Cons.prems by simp
  then show ?case
    using Cons.prems(2) by (simp add: Cons.IH)
qed

lemma update_position_form:
  assumes "target s = Some tg"
  shows "\<exists>p v. targetPosition (snd (update L dt s))
           = Some (fst (treeCollisions (playerRadius s) (colliders (environment s))
                (worldBounds (half (environment s)) p, v)))"
  using assms
  by (simp add: update_def targetPosition_def Let_def split: prod.splits) (metis fst_conv)

text \<open>
  C2, as amended. For a controller with a target, an environment whose half size is at
  least the margin and whose colliders, widened by the player radius, lie inside the
  clamped square (an empty collider list in particular), after \<^verbatim>\<open>update(dt)\<close> the target
  is within \<open>half - margin\<close> of the origin on both horizontal axes, whatever the time
  step, the input and the velocity.
\<close>

theorem bounds_clamp:
  assumes "target s \<noteq> None" and "margin \<le> half (environment s)"
    and "\<forall>c\<in>set (colliders (environment s)).
           discInside (half (environment s) - margin) (playerRadius s) c"
  shows "\<exists>p. targetPosition (snd (update L dt s)) = Some p
           \<and> \<bar>vx p\<bar> \<le> half (environment s) - margin
           \<and> \<bar>vz p\<bar> \<le> half (environment s) - margin"
proof -
  obtain tg where "target s = Some tg"
    using assms(1) by auto
  then obtain p v where pv: "targetPosition (snd (update L dt s))
           = Some (fst (treeCollisions (playerRadius s) (colliders (environment s))
                (worldBounds (half (environment s)) p, v)))"
    using update_position_form by blast
  have "insideBounds (half (environment s) - margin)
          (fst (treeCollisions (playerRadius s) (colliders (environment s))
                (worldBounds (half (environment s)) p, v)))"
    using worldBounds_inside [OF assms(2)] assms(3) by (intro treeCollisions_inside) simp_all
  then show ?thesis
    using pv by (simp add: insideBounds_def)
qed
theorem bounds_clamp_witness:
  "target (loadPlayer exampleCamera exampleTarget
       (exampleEnvironment [\<lparr>centre = vec 10 0 0, radius = 1\<rparr>]) 1.25 0.55) \<noteq> None
   \<and> margin \<le> half (environment (loadPlayer exampleCamera exampleTarget
       (exampleEnvironment [\<lparr>centre = vec 10 0 0, radius = 1\<rparr>]) 1.25 0.55))
   \<and> discInside 258 0.55 \<lparr>centre = vec 10 0 0, radius = 1\<rparr>
   \<and> (\<exists>p. targetPosition (snd (update exampleThree (1 / 60)
          (loadPlayer exampleCamera exampleTarget
             (exampleEnvironment [\<lparr>centre = vec 10 0 0, radius = 1\<rparr>]) 1.25 0.55))) = Some p
        \<and> \<bar>vx p\<bar> \<le> 258 \<and> \<bar>vz p\<bar> \<le> 258)"
proof -
  let ?s = "loadPlayer exampleCamera exampleTarget
       (exampleEnvironment [\<lparr>centre = vec 10 0 0, radius = 1\<rparr>]) 1.25 0.55"
  have a: "target ?s \<noteq> None"
    by (simp add: loadPlayer_idle)
  have h: "half (environment ?s) = 260" "colliders (environment ?s) = [\<lparr>centre = vec 10 0 0, radius = 1\<rparr>]"
    "playerRadius ?s = 0.55"
    by (simp_all add: loadPlayer_idle half_def colliders_def exampleEnvironment_def)
  have b: "margin \<le> half (environment ?s)"
    unfolding h margin_def by simp
  have d: "discInside 258 0.55 \<lparr>centre = vec 10 0 0, radius = 1\<rparr>"
    by (simp add: discInside_def vec_def)
  have e: "half (environment ?s) - margin = 258"
    unfolding h margin_def by simp
  have c: "\<forall>c\<in>set (colliders (environment ?s)).
             discInside (half (environment ?s) - margin) (playerRadius ?s) c"
    using d unfolding h margin_def by simp
  have r: "\<exists>p. targetPosition (snd (update exampleThree (1 / 60) ?s)) = Some p
        \<and> \<bar>vx p\<bar> \<le> 258 \<and> \<bar>vz p\<bar> \<le> 258"
    using bounds_clamp [OF a b c, of exampleThree "1 / 60"] unfolding e .
  show ?thesis
    using a b d r by blast
qed

text \<open>
  C2 as stated allows any collider list and any half size. The bounds are clamped before
  the trees push: with half size 2.5 and a collider of radius 1 at \<open>(-1, 0)\<close> the player
  spawned at the origin is pushed to \<open>x = 0.55\<close>, beyond \<open>2.5 - 2\<close>. And with half size 1,
  below the margin, the clamp puts the player at \<open>x = 1\<close>, beyond \<open>1 - 2\<close>.
\<close>

theorem bounds_clamp_counterexample:
  "targetPosition (snd (update exampleThree (1 / 60)
      (loadPlayer exampleCamera exampleTarget
         \<lparr>groundY = Some 0, boundsHalfSize = Some 2.5,
          treeColliders = Some [\<lparr>centre = vec (- 1) 0 0, radius = 1\<rparr>]\<rparr> 1.25 0.55)))
     = Some (vec 0.55 0 0)
   \<and> \<not> \<bar>vx (vec 0.55 0 0)\<bar> \<le> 2.5 - margin
   \<and> targetPosition (snd (update exampleThree (1 / 60)
      (loadPlayer exampleCamera exampleTarget
         \<lparr>groundY = Some 0, boundsHalfSize = Some 1, treeColliders = Some []\<rparr> 1.25 0.55)))
     = Some (vec 1 0 1)
   \<and> \<not> \<bar>vx (vec 1 0 1)\<bar> \<le> 1 - margin"
  unfolding loadPlayer_first_frame
  by (simp add: colliders_def half_def groundLevel_def worldBounds_def
      margin_def clamp_def treeCollisions_def collide_def vec_def Let_def)

subsection \<open>Move intent and desired velocity\<close>

























end
